theory Spec2Isabelle
  imports Main "HOL-Library.AList" "HOL-Library.Multiset" "HOL-Library.Product_Lexorder" "HOL-Library.Sublist"
begin

section \<open>Time\<close>

text \<open>
  A \<^verbatim>\<open>datetime\<close> is modelled as the number of microseconds since the epoch, the
  resolution of Python's \<^verbatim>\<open>datetime\<close>; a \<^verbatim>\<open>timedelta\<close> is a number of microseconds.
\<close>

type_synonym timestamp = int

definition timedelta_days :: "int \<Rightarrow> int" where
  "timedelta_days n = n * 86400000000"

definition timedelta_hours :: "int \<Rightarrow> int" where
  "timedelta_hours n = n * 3600000000"

section \<open>The tables of models.py\<close>

text \<open>
  \<^verbatim>\<open>class Feed(db.Model)\<close>. The field names carry the prefix \<open>f_\<close>, since \<^verbatim>\<open>Entry\<close> has
  columns of the same names. \<open>f_frequency_rank\<close> is the attribute that
  \<^verbatim>\<open>set_frequency_ranks\<close> assigns; nullable columns are options.
\<close>

record feed =
  f_id :: int
  f_type :: string
  f_name :: "string option"
  f_icon_url :: "string option"
  f_created :: timestamp
  f_updated :: timestamp
  f_raw_data :: "string option"
  f_folder :: "string option"
  f_views :: int
  f_frequency_rank :: "int option"

text \<open>\<^verbatim>\<open>class Entry(db.Model)\<close>, as the ORM loads a row of the table \<^verbatim>\<open>entries\<close>.\<close>

record entry =
  entry_id :: int
  feed_id :: "int option"
  remote_id :: string
  title :: string
  username :: "string option"
  user_url :: "string option"
  avatar_url :: "string option"
  body :: "string option"
  entry_url :: "string option"
  content_url :: "string option"
  media_url :: "string option"
  created :: timestamp
  updated :: timestamp
  remote_created :: timestamp
  remote_updated :: timestamp
  deleted :: "timestamp option"
  favorited :: "timestamp option"
  pinned :: "timestamp option"
  raw_data :: "string option"
  reblogged_by :: "string option"

text \<open>The database: the rows of both tables, in rowid order.\<close>

record database =
  feeds :: "feed list"
  entries :: "entry list"

section \<open>Frequency ranks\<close>

text \<open>\<^verbatim>\<open>Feed.freq_bucket\<close> (models.py), the function registered into SQLite.\<close>

definition freq_bucket :: "int \<Rightarrow> int" where
  "freq_bucket cnt =
     (if cnt \<le> 2 then 1
      else if cnt < 5 then 2
      else if cnt < 15 then 3
      else if cnt < 45 then 3
      else 5)"

text \<open>
  The rank computed in the body of the loop of \<^verbatim>\<open>set_frequency_ranks\<close> (tasks.py)
  from the \<^verbatim>\<open>count\<close> of a result row.
\<close>

definition batch_rank :: "int \<Rightarrow> int" where
  "batch_rank cnt =
     (if cnt \<le> 2 then 1
      else if cnt < 5 then 2
      else if cnt < 15 then 3
      else if cnt < 45 then 3
      else if cnt < 300 then 4
      else 5)"

text \<open>
  The rows that the join of \<^verbatim>\<open>feeds\<close> with \<^verbatim>\<open>entries\<close> contributes to the group of one
  feed: its entries with \<^verbatim>\<open>remote_updated >= two_weeks_ago\<close>.
\<close>

definition recent_entries :: "timestamp \<Rightarrow> database \<Rightarrow> feed \<Rightarrow> entry list" where
  "recent_entries two_weeks_ago db f =
     filter (\<lambda>e. feed_id e = Some (f_id f) \<and> two_weeks_ago \<le> remote_updated e) (entries db)"

text \<open>
  The query \<^verbatim>\<open>q\<close> of \<^verbatim>\<open>set_frequency_ranks\<close>: one row \<open>(feed, cnt)\<close> for each feed that
  has a joined row (an inner join: a feed with no such entry has no group), ordered by
  the count.
\<close>

definition feed_counts :: "timestamp \<Rightarrow> database \<Rightarrow> (feed \<times> int) list" where
  "feed_counts two_weeks_ago db =
     sort_key snd
       (filter (\<lambda>(f, cnt). 0 < cnt)
          (map (\<lambda>f. (f, int (length (recent_entries two_weeks_ago db f)))) (feeds db)))"

text \<open>
  The loop \<^verbatim>\<open>for feed, count in ...: feed.frequency_rank = rank\<close>: the feed object of the
  row (identified by its primary key) gets the rank of the count.
\<close>

fun assign_ranks :: "(feed \<times> int) list \<Rightarrow> feed list \<Rightarrow> feed list" where
  "assign_ranks [] fs = fs"
| "assign_ranks ((f, cnt) # rows) fs =
     assign_ranks rows
       (map (\<lambda>g. if f_id g = f_id f then g\<lparr>f_frequency_rank := Some (batch_rank cnt)\<rparr> else g) fs)"

definition set_frequency_ranks :: "timestamp \<Rightarrow> database \<Rightarrow> database" where
  "set_frequency_ranks now db =
     (let two_weeks_ago = now - timedelta_days 14
      in db\<lparr>feeds := assign_ranks (feed_counts two_weeks_ago db) (feeds db)\<rparr>)"

section \<open>Python values, exceptions and strings\<close>

text \<open>The exceptions that the modelled code raises, as values.\<close>

datatype error =
    KeyError string
  | IndexError
  | ValueError
  | NotImplementedError
  | AttributeError string
  | RequestException
  | CompileError
  | IntegrityError
  | NotFound

text \<open>Sequencing of computations that may raise: the first exception wins.\<close>

definition then_do :: "error + 'a \<Rightarrow> ('a \<Rightarrow> error + 'b) \<Rightarrow> error + 'b" where
  "then_do m k = (case m of Inl e \<Rightarrow> Inl e | Inr x \<Rightarrow> k x)"

text \<open>\<^verbatim>\<open>d[key]\<close> on an optional field: a missing key raises \<^verbatim>\<open>KeyError\<close>.\<close>

definition getitem :: "string \<Rightarrow> 'a option \<Rightarrow> error + 'a" where
  "getitem key field = (case field of None \<Rightarrow> Inl (KeyError key) | Some x \<Rightarrow> Inr x)"

text \<open>\<^verbatim>\<open>needle in haystack\<close> on strings: the substring test.\<close>

fun str_in :: "string \<Rightarrow> string \<Rightarrow> bool" where
  "str_in needle [] = (needle = [])"
| "str_in needle (c # cs) = (prefix needle (c # cs) \<or> str_in needle cs)"

text \<open>\<^verbatim>\<open>str.lower()\<close>, on ASCII text: the letters A to Z become a to z.\<close>

definition lower_char :: "char \<Rightarrow> char" where
  "lower_char c =
     (case map_of (zip ''ABCDEFGHIJKLMNOPQRSTUVWXYZ'' ''abcdefghijklmnopqrstuvwxyz'') c of
        None \<Rightarrow> c
      | Some l \<Rightarrow> l)"

definition lower :: "string \<Rightarrow> string" where
  "lower s = map lower_char s"

text \<open>The values of the columns of a row: SQL \<^verbatim>\<open>NULL\<close>, integers, text and timestamps.\<close>

datatype val = Null | Num int | Str string | Ts timestamp

definition opt_str :: "string option \<Rightarrow> val" where
  "opt_str s = (case s of None \<Rightarrow> Null | Some x \<Rightarrow> Str x)"

text \<open>
  A dictionary of column values (\<^verbatim>\<open>values\<close> in the source), in insertion order;
  \<^verbatim>\<open>values[k] = v\<close> is \<^const>\<open>AList.update\<close>.
\<close>

type_synonym column_values = "(string \<times> val) list"

section \<open>Parser selection (parser.py)\<close>

text \<open>
  The parts of the result of \<^verbatim>\<open>feedparser.parse\<close> that the code reads: the feed-level
  metadata \<^verbatim>\<open>feed['feed']\<close>, the raw entries and the feed's \<^verbatim>\<open>updated_parsed\<close>.
  A \<^verbatim>\<open>struct_time\<close> is modelled by the number of seconds that \<^verbatim>\<open>time.mktime\<close>
  computes from it.
\<close>

type_synonym struct_time = int

record feed_data =
  fd_title :: "string option"
  fd_link :: "string option"
  fd_generator :: "string option"

datatype parser_cls =
    BaseParser
  | LinkAggregatorParser
  | MastodonUserParser
  | GithubFeedParser
  | GoodreadsFeedParser

definition KNOWN_AGGREGATORS :: "string list" where
  "KNOWN_AGGREGATORS = [''lobste.rs'', ''reddit.com'', ''news.ycombinator.com'']"

text \<open>The static method \<^verbatim>\<open>is_compatible(feed_url, feed_data)\<close> of each class.\<close>

fun is_compatible :: "parser_cls \<Rightarrow> string \<Rightarrow> feed_data \<Rightarrow> error + bool" where
  "is_compatible BaseParser feed_url fd = Inl NotImplementedError"
| "is_compatible LinkAggregatorParser feed_url fd =
     then_do (getitem ''link'' (fd_link fd))
       (\<lambda>link. Inr (list_ex (\<lambda>domain. str_in domain link) KNOWN_AGGREGATORS))"
| "is_compatible MastodonUserParser feed_url fd =
     Inr (str_in ''mastodon''
            (lower (case fd_generator fd of None \<Rightarrow> [] | Some g \<Rightarrow> g)))"
| "is_compatible GithubFeedParser feed_url fd =
     Inr (str_in ''github.com'' feed_url \<and> str_in ''private.atom'' feed_url)"
| "is_compatible GoodreadsFeedParser feed_url fd =
     Inr (str_in ''goodreads.com'' feed_url \<and> str_in ''/home/index_rss'' feed_url)"

text \<open>
  \<^verbatim>\<open>BaseParser.__subclasses__()\<close>: the direct subclasses, in the order in which the
  module defines them.
\<close>

definition subclasses :: "parser_cls list" where
  "subclasses =
     [LinkAggregatorParser, MastodonUserParser, GithubFeedParser, GoodreadsFeedParser]"

text \<open>
  The loop of \<^verbatim>\<open>sync_feed\<close> that picks \<^verbatim>\<open>parser_cls\<close>: the first compatible class
  wins (\<^verbatim>\<open>break\<close>), \<^verbatim>\<open>BaseParser\<close> is the default, and an exception of a
  compatibility test leaves the loop.
\<close>

fun select_loop :: "parser_cls list \<Rightarrow> string \<Rightarrow> feed_data \<Rightarrow> error + parser_cls" where
  "select_loop [] feed_url fd = Inr BaseParser"
| "select_loop (cls # rest) feed_url fd =
     then_do (is_compatible cls feed_url fd)
       (\<lambda>ok. if ok then Inr cls else select_loop rest feed_url fd)"

definition select_parser :: "string \<Rightarrow> feed_data \<Rightarrow> error + parser_cls" where
  "select_parser feed_url fd = select_loop subclasses feed_url fd"

section \<open>The upsert statement\<close>

text \<open>
  The statement \<^verbatim>\<open>sqlite.insert(models.Entry).values(**values).on_conflict_do_update(
  ("feed_id", "remote_id"), set_=values)\<close> is built from a dictionary, so here a row of
  the table \<^verbatim>\<open>entries\<close> is a map from column names to values.
\<close>

type_synonym row = "string \<Rightarrow> val"

type_synonym entries_table = "row list"

text \<open>What the statement needs of the table's declaration: its columns and which of them
  are \<^verbatim>\<open>nullable=False\<close> (a primary key is not null).\<close>

record table_schema =
  columns :: "string list"
  not_null :: "string list"

text \<open>The table of \<^verbatim>\<open>class Entry\<close> in models.py.\<close>

definition entries_schema :: table_schema where
  "entries_schema =
     \<lparr>columns = [''id'', ''feed_id'', ''remote_id'', ''title'', ''username'', ''user_url'',
        ''avatar_url'', ''body'', ''entry_url'', ''content_url'', ''media_url'', ''created'',
        ''updated'', ''remote_created'', ''remote_updated'', ''deleted'', ''favorited'',
        ''pinned'', ''raw_data'', ''reblogged_by''],
      not_null = [''id'', ''remote_id'', ''title'', ''created'', ''updated'',
        ''remote_created'', ''remote_updated'']\<rparr>"

text \<open>Writing the values of a dictionary into a row: the other columns keep their value.\<close>

definition apply_values :: "column_values \<Rightarrow> row \<Rightarrow> row" where
  "apply_values vs r = (\<lambda>c. case map_of vs c of None \<Rightarrow> r c | Some v \<Rightarrow> v)"

text \<open>The integer primary key that SQLite gives a new row: one more than the largest.\<close>

definition id_num :: "row \<Rightarrow> int" where
  "id_num r = (case r ''id'' of Num n \<Rightarrow> n | _ \<Rightarrow> 0)"

definition next_id :: "entries_table \<Rightarrow> int" where
  "next_id t = fold max (map id_num t) 0 + 1"

text \<open>
  The row that an insert without values would create: the new primary key, the
  \<^verbatim>\<open>default=datetime.datetime.utcnow\<close> of \<^verbatim>\<open>created\<close> and \<^verbatim>\<open>updated\<close>, and \<^verbatim>\<open>NULL\<close>
  elsewhere.
\<close>

definition insert_defaults :: "timestamp \<Rightarrow> entries_table \<Rightarrow> row" where
  "insert_defaults now t =
     (\<lambda>c. if c = ''id'' then Num (next_id t)
          else if c = ''created'' \<or> c = ''updated'' then Ts now
          else Null)"

text \<open>
  A stored row conflicts with the new one on \<^verbatim>\<open>UniqueConstraint("feed_id", "remote_id")\<close>
  when both columns are equal; a \<^verbatim>\<open>NULL\<close> equals nothing.
\<close>

definition conflicts :: "row \<Rightarrow> row \<Rightarrow> bool" where
  "conflicts new r =
     (new ''feed_id'' \<noteq> Null \<and> new ''remote_id'' \<noteq> Null \<and>
      r ''feed_id'' = new ''feed_id'' \<and> r ''remote_id'' = new ''remote_id'')"

text \<open>
  One execution of the statement at the time \<open>now\<close>. A key that is no column is refused
  when the statement is compiled; a \<^verbatim>\<open>NULL\<close> in a column that is not nullable, or a
  primary key used twice, is an \<^verbatim>\<open>IntegrityError\<close>. On a conflict the stored row gets
  the values of the dictionary (\<^verbatim>\<open>set_=values\<close>), otherwise the new row is appended.
\<close>

definition sqlite_upsert ::
    "table_schema \<Rightarrow> timestamp \<Rightarrow> column_values \<Rightarrow> entries_table \<Rightarrow> error + entries_table" where
  "sqlite_upsert sch now vs t =
     (if \<not> list_all (\<lambda>k. k \<in> set (columns sch)) (map fst vs) then Inl CompileError
      else
        let new = apply_values vs (insert_defaults now t) in
        if list_ex (\<lambda>c. new c = Null) (not_null sch) then Inl IntegrityError
        else
          let t' = (if list_ex (conflicts new) t
                    then map (\<lambda>r. if conflicts new r then apply_values vs r else r) t
                    else t @ [new])
          in if distinct (map (\<lambda>r. r ''id'') t') then Inr t' else Inl IntegrityError)"

text \<open>
  \<^verbatim>\<open>upsert_entries\<close> (tasks.py). Each statement is committed on its own, so an exception
  leaves the table as the statements before it made it; the result is the table and the
  exception, if any. The default of \<^verbatim>\<open>created\<close> reads the clock when the statement runs;
  the model uses the reading \<open>utcnow\<close> for it.
\<close>

fun upsert_entries ::
    "timestamp \<Rightarrow> int \<Rightarrow> column_values list \<Rightarrow> entries_table \<Rightarrow> entries_table \<times> error option" where
  "upsert_entries utcnow fid [] t = (t, None)"
| "upsert_entries utcnow fid (vs # entries_values) t =
     (let vs1 = AList.update ''updated'' (Ts utcnow) vs;
          vs2 = AList.update ''feed_id'' (Num fid) vs1
      in case sqlite_upsert entries_schema utcnow vs2 t of
           Inl e \<Rightarrow> (t, Some e)
         | Inr t' \<Rightarrow> upsert_entries utcnow fid entries_values t')"

text \<open>
  The columns that a canonical entry may carry: the ones derived from the source. The
  primary key, the feed, the local timestamps and the markers \<^verbatim>\<open>favorited\<close>,
  \<^verbatim>\<open>pinned\<close> and \<^verbatim>\<open>deleted\<close> are not among them.
\<close>

definition source_columns :: "string list" where
  "source_columns =
     [''remote_id'', ''title'', ''username'', ''user_url'', ''avatar_url'', ''body'',
      ''entry_url'', ''content_url'', ''media_url'', ''remote_created'', ''remote_updated'',
      ''raw_data'', ''reblogged_by'']"

text \<open>
  A valid canonical entry: a dictionary (its keys are distinct) over the source columns
  that gives a value other than \<^verbatim>\<open>None\<close> to the source columns that are not nullable.
\<close>

definition canonical_entry :: "column_values \<Rightarrow> bool" where
  "canonical_entry vs =
     (distinct (map fst vs)
      \<and> list_all (\<lambda>k. k \<in> set source_columns) (map fst vs)
      \<and> list_all (\<lambda>c. case map_of vs c of None \<Rightarrow> False | Some v \<Rightarrow> v \<noteq> Null)
           [''remote_id'', ''title'', ''remote_created'', ''remote_updated''])"

text \<open>
  What the table's constraints guarantee of a stored table: the primary keys are
  distinct, and so are the pairs \<open>(feed_id, remote_id)\<close> of the rows where neither is
  \<^verbatim>\<open>NULL\<close>.
\<close>

definition unique_entries :: "entries_table \<Rightarrow> bool" where
  "unique_entries t =
     (distinct (map (\<lambda>r. r ''id'') t)
      \<and> distinct (map (\<lambda>r. (r ''feed_id'', r ''remote_id''))
           (filter (\<lambda>r. r ''feed_id'' \<noteq> Null \<and> r ''remote_id'' \<noteq> Null) t)))"

text \<open>The rows of a table with a given feed and remote identifier.\<close>

definition rows_of_key :: "int \<Rightarrow> val \<Rightarrow> entries_table \<Rightarrow> row list" where
  "rows_of_key fid rid t = filter (\<lambda>r. r ''feed_id'' = Num fid \<and> r ''remote_id'' = rid) t"

section \<open>Normalizing raw entries (parser.py)\<close>

text \<open>
  A raw entry of the fetched feed: the keys that the parsers read, \<open>None\<close> for a key
  that is absent. \<open>r_source_icon\<close> is \<^verbatim>\<open>entry.get('source', {}).get('icon')\<close>.
\<close>

record media =
  m_url :: "string option"
  m_type :: "string option"

record raw_entry =
  r_title :: "string option"
  r_link :: "string option"
  r_summary :: "string option"
  r_author :: "string option"
  r_source_icon :: "string option"
  r_media_thumbnail :: "media list option"
  r_media_content :: "media list option"
  r_id :: "string option"
  r_published_parsed :: "struct_time option"
  r_updated_parsed :: "struct_time option"

text \<open>
  What the parsers ask of the outside world: \<^verbatim>\<open>requests.head(url).ok\<close> and
  \<^verbatim>\<open>requests.get(url).content\<close> (\<open>None\<close> when the request raises), and of the HTML
  library: the \<^verbatim>\<open>p\<close> elements of a document without its images, in the order in which
  \<^verbatim>\<open>soup.p.extract()\<close> yields them, the \<^verbatim>\<open>src\<close> of the first \<^verbatim>\<open>img\<close> (\<open>Some None\<close>
  for an image without that attribute) and the content of the first
  \<^verbatim>\<open>og:image\<close> or \<^verbatim>\<open>twitter:image\<close> meta tag.
\<close>

record env =
  head_ok :: "string \<Rightarrow> bool option"
  get_content :: "string \<Rightarrow> string option"
  paragraphs :: "string \<Rightarrow> string list"
  img_src :: "string \<Rightarrow> string option option"
  meta_image :: "string \<Rightarrow> string option"

definition to_datetime :: "struct_time \<Rightarrow> timestamp" where
  "to_datetime st = st * 1000000"

text \<open>
  Modelled from the spec: the lookup \<^verbatim>\<open>entry['updated_parsed']\<close>. The class of a raw
  entry is the dictionary of the feed-parsing library, which is not part of the
  repository. As the spec states, an entry whose source omits the updated time reads as
  its created time: the library maps a missing \<^verbatim>\<open>updated_parsed\<close> to
  \<^verbatim>\<open>published_parsed\<close>, and raises \<^verbatim>\<open>KeyError\<close> when both are missing.
\<close>

definition getitem_updated_parsed :: "raw_entry \<Rightarrow> error + struct_time" where
  "getitem_updated_parsed entry =
     (case r_updated_parsed entry of
        Some st \<Rightarrow> Inr st
      | None \<Rightarrow> getitem ''updated_parsed'' (r_published_parsed entry))"

text \<open>\<^verbatim>\<open>entry['media_thumbnail'][0]['url']\<close> and \<^verbatim>\<open>entry['media_content'][0]\<close>.\<close>

definition first_item :: "'a list \<Rightarrow> error + 'a" where
  "first_item xs = (case xs of [] \<Rightarrow> Inl IndexError | x # _ \<Rightarrow> Inr x)"

definition thumbnail_url :: "raw_entry \<Rightarrow> error + val" where
  "thumbnail_url entry =
     then_do (getitem ''media_thumbnail'' (r_media_thumbnail entry)) (\<lambda>ms.
     then_do (first_item ms) (\<lambda>m.
     then_do (getitem ''url'' (m_url m)) (\<lambda>u. Inr (Str u))))"

text \<open>The methods \<^verbatim>\<open>parse_<field>\<close>, with the overrides of the subclasses.\<close>

definition parse_title :: "parser_cls \<Rightarrow> feed_data \<Rightarrow> raw_entry \<Rightarrow> error + val" where
  "parse_title cls fd entry =
     (if cls = MastodonUserParser
      then then_do (getitem ''title'' (fd_title fd)) (\<lambda>t. Inr (Str t))
      else then_do (getitem ''title'' (r_title entry)) (\<lambda>t. Inr (Str t)))"

definition parse_title_url :: "raw_entry \<Rightarrow> error + val" where
  "parse_title_url entry = then_do (getitem ''link'' (r_link entry)) (\<lambda>l. Inr (Str l))"

definition parse_username :: "raw_entry \<Rightarrow> error + val" where
  "parse_username entry = Inr (opt_str (r_author entry))"

definition parse_avatar_url :: "env \<Rightarrow> parser_cls \<Rightarrow> raw_entry \<Rightarrow> error + val" where
  "parse_avatar_url ev cls entry =
     (if cls = GithubFeedParser then thumbnail_url entry
      else case r_source_icon entry of
             None \<Rightarrow> Inr Null
           | Some u \<Rightarrow>
               if u = [] then Inr Null
               else (case head_ok ev u of
                       None \<Rightarrow> Inl RequestException
                     | Some ok \<Rightarrow> Inr (if ok then Str u else Null)))"

definition parse_body :: "env \<Rightarrow> parser_cls \<Rightarrow> raw_entry \<Rightarrow> error + val" where
  "parse_body ev cls entry =
     (if cls = GithubFeedParser \<or> cls = GoodreadsFeedParser then Inr Null
      else then_do (getitem ''summary'' (r_summary entry)) (\<lambda>s.
             Inr (Str (case paragraphs ev s of
                         [] \<Rightarrow> []
                       | [p] \<Rightarrow> p
                       | p # q # _ \<Rightarrow> p @ [CHR 0x0A] @ q))))"

definition media_from_page :: "env \<Rightarrow> raw_entry \<Rightarrow> error + val" where
  "media_from_page ev entry =
     then_do (getitem ''summary'' (r_summary entry)) (\<lambda>s.
       case img_src ev s of
         Some src \<Rightarrow> then_do (getitem ''src'' src) (\<lambda>u. Inr (Str u))
       | None \<Rightarrow>
           then_do (getitem ''link'' (r_link entry)) (\<lambda>l.
             case get_content ev l of
               None \<Rightarrow> Inl RequestException
             | Some html \<Rightarrow> Inr (opt_str (meta_image ev html))))"

definition parse_media_url :: "env \<Rightarrow> parser_cls \<Rightarrow> raw_entry \<Rightarrow> error + val" where
  "parse_media_url ev cls entry =
     (if cls = GithubFeedParser \<or> cls = GoodreadsFeedParser then Inr Null
      else if r_media_thumbnail entry \<noteq> None then thumbnail_url entry
      else case r_media_content entry of
             None \<Rightarrow> media_from_page ev entry
           | Some ms \<Rightarrow>
               then_do (first_item ms) (\<lambda>m.
                 if m_type m = Some ''image''
                 then then_do (getitem ''url'' (m_url m)) (\<lambda>u. Inr (Str u))
                 else media_from_page ev entry))"

definition parse_remote_id :: "raw_entry \<Rightarrow> error + val" where
  "parse_remote_id entry = then_do (getitem ''id'' (r_id entry)) (\<lambda>i. Inr (Str i))"

definition parse_remote_created :: "raw_entry \<Rightarrow> error + val" where
  "parse_remote_created entry =
     then_do (getitem ''published_parsed'' (r_published_parsed entry))
       (\<lambda>st. Inr (Ts (to_datetime st)))"

definition parse_remote_updated :: "raw_entry \<Rightarrow> error + val" where
  "parse_remote_updated entry =
     then_do (getitem_updated_parsed entry) (\<lambda>st. Inr (Ts (to_datetime st)))"

definition FIELDS :: "string list" where
  "FIELDS = [''title'', ''title_url'', ''avatar_url'', ''username'', ''body'',
             ''media_url'', ''remote_id'', ''remote_created'', ''remote_updated'']"

text \<open>\<^verbatim>\<open>getattr(self, 'parse_' + field)(entry)\<close>.\<close>

definition parse_field ::
    "env \<Rightarrow> parser_cls \<Rightarrow> feed_data \<Rightarrow> string \<Rightarrow> raw_entry \<Rightarrow> error + val" where
  "parse_field ev cls fd field entry =
     (if field = ''title'' then parse_title cls fd entry
      else if field = ''title_url'' then parse_title_url entry
      else if field = ''avatar_url'' then parse_avatar_url ev cls entry
      else if field = ''username'' then parse_username entry
      else if field = ''body'' then parse_body ev cls entry
      else if field = ''media_url'' then parse_media_url ev cls entry
      else if field = ''remote_id'' then parse_remote_id entry
      else if field = ''remote_created'' then parse_remote_created entry
      else if field = ''remote_updated'' then parse_remote_updated entry
      else Inl (AttributeError (''parse_'' @ field)))"

text \<open>The loop \<^verbatim>\<open>for field in self.FIELDS\<close> of \<^verbatim>\<open>BaseParser.parse\<close>.\<close>

fun parse_fields ::
    "env \<Rightarrow> parser_cls \<Rightarrow> feed_data \<Rightarrow> raw_entry \<Rightarrow> string list \<Rightarrow> column_values
      \<Rightarrow> error + column_values" where
  "parse_fields ev cls fd entry [] result = Inr result"
| "parse_fields ev cls fd entry (field # rest) result =
     then_do (parse_field ev cls fd field entry)
       (\<lambda>v. parse_fields ev cls fd entry rest (AList.update field v result))"

text \<open>\<^verbatim>\<open>BaseParser.parse\<close>: an entry without a link or without a summary is malformed.\<close>

definition parse :: "env \<Rightarrow> parser_cls \<Rightarrow> feed_data \<Rightarrow> raw_entry \<Rightarrow> error + column_values" where
  "parse ev cls fd entry =
     (if r_link entry = None \<or> r_summary entry = None then Inl ValueError
      else parse_fields ev cls fd entry FIELDS [])"

section \<open>Syncing one feed (parser.py)\<close>

definition timedelta_minutes :: "int \<Rightarrow> int" where
  "timedelta_minutes n = n * 60000000"

definition UPDATE_AFTER_MINUTES :: int where
  "UPDATE_AFTER_MINUTES = 5"

text \<open>\<^verbatim>\<open>class RssFeed(Feed)\<close>: the feed row that \<^verbatim>\<open>sync_feed\<close> receives as \<^verbatim>\<open>db_feed\<close>.\<close>

record rss_feed = feed +
  url :: string
  last_fetch :: "timestamp option"
  etag :: "string option"
  modified_header :: "string option"

text \<open>The result of \<^verbatim>\<open>feedparser.parse(db_feed.url)\<close>.\<close>

record parsed_feed =
  pf_feed :: feed_data
  pf_entries :: "raw_entry list"
  pf_updated_parsed :: "struct_time option"

text \<open>
  The loop \<^verbatim>\<open>for entry in feed['entries']\<close> of \<^verbatim>\<open>sync_feed\<close>. An exception of
  \<^verbatim>\<open>parser.parse\<close> is caught (\<^verbatim>\<open>except Exception\<close>) and the loop goes on with the next
  entry; the statement runs outside the \<^verbatim>\<open>try\<close>, so its exception leaves the loop. The
  table is the one of the module's own \<^verbatim>\<open>models.Entry\<close>, whose declaration \<open>sch\<close> is a
  parameter.
\<close>

fun sync_entries ::
    "table_schema \<Rightarrow> env \<Rightarrow> parser_cls \<Rightarrow> feed_data \<Rightarrow> timestamp \<Rightarrow> int \<Rightarrow> raw_entry list
      \<Rightarrow> entries_table \<Rightarrow> error + entries_table" where
  "sync_entries sch ev cls fd fetched fid [] t = Inr t"
| "sync_entries sch ev cls fd fetched fid (entry # rest) t =
     (case parse ev cls fd entry of
        Inl e \<Rightarrow> sync_entries sch ev cls fd fetched fid rest t
      | Inr vs \<Rightarrow>
          (let vs1 = AList.update ''updated'' (Ts fetched) vs;
               vs2 = AList.update ''feed_id'' (Num fid) vs1
           in then_do (sqlite_upsert sch fetched vs2 t)
                (\<lambda>t'. sync_entries sch ev cls fd fetched fid rest t')))"

text \<open>
  \<^verbatim>\<open>sync_feed(app, db_feed)\<close>. \<open>fetch\<close> is \<^verbatim>\<open>feedparser.parse\<close>, and \<open>now1\<close>, \<open>now2\<close>,
  \<open>now3\<close> are the three readings of \<^verbatim>\<open>datetime.datetime.utcnow()\<close>. The result is the
  feed row with its new \<^verbatim>\<open>last_fetch\<close> and the table, or the exception that left the
  function.
\<close>

definition sync_feed ::
    "table_schema \<Rightarrow> env \<Rightarrow> (string \<Rightarrow> parsed_feed) \<Rightarrow> timestamp \<Rightarrow> timestamp \<Rightarrow> timestamp
      \<Rightarrow> rss_feed \<Rightarrow> entries_table \<Rightarrow> error + rss_feed \<times> entries_table" where
  "sync_feed sch ev fetch now1 now2 now3 db_feed t =
     (if (case last_fetch db_feed of
            None \<Rightarrow> False
          | Some lf \<Rightarrow> now1 - lf < timedelta_minutes UPDATE_AFTER_MINUTES)
      then Inr (db_feed, t)
      else
        let db_feed' = db_feed\<lparr>last_fetch := Some now2\<rparr>;
            fd = fetch (url db_feed)
        in if (case pf_updated_parsed fd of
                 None \<Rightarrow> False
               | Some st \<Rightarrow> now3 - to_datetime st < timedelta_minutes UPDATE_AFTER_MINUTES)
           then Inr (db_feed', t)
           else
             then_do (select_parser (url db_feed) (pf_feed fd)) (\<lambda>cls.
             then_do (sync_entries sch ev cls (pf_feed fd) now2 (f_id db_feed) (pf_entries fd) t)
               (\<lambda>t'. Inr (db_feed', t'))))"

section \<open>The queries of models.py\<close>

text \<open>
  The keyword arguments of \<^verbatim>\<open>_filtered_query\<close>, \<open>None\<close> for one that is not given. The
  code tests each by its truth value: \<^verbatim>\<open>None\<close>, \<^verbatim>\<open>False\<close> and the empty string do not
  filter.
\<close>

record filters =
  flt_deleted :: "bool option"
  flt_favorited :: "bool option"
  flt_feed_name :: "string option"
  flt_username :: "string option"
  flt_folder :: "string option"

definition truthy_flag :: "bool option \<Rightarrow> bool" where
  "truthy_flag b = (b = Some True)"

definition truthy_str :: "string option \<Rightarrow> bool" where
  "truthy_str s = (case s of None \<Rightarrow> False | Some x \<Rightarrow> x \<noteq> [])"

text \<open>\<^verbatim>\<open>cls.feed.has(...)\<close>: the feed of the entry exists and satisfies the condition.\<close>

definition feed_has :: "database \<Rightarrow> (feed \<Rightarrow> bool) \<Rightarrow> entry \<Rightarrow> bool" where
  "feed_has db cond e = list_ex (\<lambda>f. feed_id e = Some (f_id f) \<and> cond f) (feeds db)"

text \<open>\<^verbatim>\<open>Entry._filtered_query\<close>: the conjunction of the filters it adds to the query.\<close>

definition filtered_query :: "database \<Rightarrow> filters \<Rightarrow> entry \<Rightarrow> bool" where
  "filtered_query db flt e =
     ((if truthy_flag (flt_deleted flt) then deleted e \<noteq> None else deleted e = None)
      \<and> (if truthy_flag (flt_favorited flt) then favorited e \<noteq> None else True)
      \<and> (if truthy_str (flt_feed_name flt) then feed_has db (\<lambda>f. f_name f = flt_feed_name flt) e
         else True)
      \<and> (if truthy_str (flt_folder flt) then feed_has db (\<lambda>f. f_folder f = flt_folder flt) e
         else True)
      \<and> (if truthy_str (flt_username flt) then username e = flt_username flt else True))"

text \<open>\<^verbatim>\<open>Entry.select_pinned\<close>.\<close>

definition select_pinned :: "database \<Rightarrow> filters \<Rightarrow> entry list" where
  "select_pinned db flt =
     sort_key (\<lambda>e. case pinned e of None \<Rightarrow> 0 | Some t \<Rightarrow> - t)
       (filter (\<lambda>e. filtered_query db flt e \<and> pinned e \<noteq> None) (entries db))"

text \<open>\<^verbatim>\<open>LIMIT n\<close> in SQLite: a negative \<open>n\<close> is no limit.\<close>

definition sql_limit :: "int \<Rightarrow> 'a list \<Rightarrow> 'a list" where
  "sql_limit n xs = (if n < 0 then xs else take (nat n) xs)"

text \<open>
  \<^verbatim>\<open>Entry.select_page_chronologically\<close>. \<open>older_than\<close> is a \<^verbatim>\<open>datetime\<close> or \<^verbatim>\<open>None\<close>,
  and a \<^verbatim>\<open>datetime\<close> is always true in \<^verbatim>\<open>if older_than\<close>. Rows that the order leaves
  equal keep the order of the table.
\<close>

definition select_page_chronologically ::
    "database \<Rightarrow> int \<Rightarrow> timestamp option \<Rightarrow> filters \<Rightarrow> entry list" where
  "select_page_chronologically db limit older_than flt =
     sql_limit limit
       (sort_key (\<lambda>e. - remote_updated e)
          (filter (\<lambda>e. filtered_query db flt e \<and>
                        (case older_than of None \<Rightarrow> True | Some t \<Rightarrow> remote_updated e < t))
             (entries db)))"

text \<open>
  The subquery of \<^verbatim>\<open>select_page_by_frequency\<close>: for each feed with a joined row (an
  entry with \<^verbatim>\<open>remote_updated >= two_weeks_ago\<close>), its id and the \<^verbatim>\<open>freq_bucket\<close> of the
  number of those entries.
\<close>

definition rank_subquery :: "timestamp \<Rightarrow> database \<Rightarrow> (int \<times> int) list" where
  "rank_subquery two_weeks_ago db =
     map (\<lambda>(f, cnt). (f_id f, freq_bucket cnt))
       (filter (\<lambda>(f, cnt). 0 < cnt)
          (map (\<lambda>f. (f, int (length (recent_entries two_weeks_ago db f)))) (feeds db)))"

text \<open>
  The rows of the main query: the filtered entries, joined with their feed
  (\<^verbatim>\<open>.join(Feed)\<close>) and with the row of the subquery for that feed
  (\<^verbatim>\<open>.join(subquery, subquery.c.id == Feed.id)\<close>); both joins are inner joins.
\<close>

definition frequency_rows :: "timestamp \<Rightarrow> database \<Rightarrow> filters \<Rightarrow> (entry \<times> int) list" where
  "frequency_rows two_weeks_ago db flt =
     [(e, rank).
        e \<leftarrow> filter (filtered_query db flt) (entries db),
        f \<leftarrow> feeds db, feed_id e = Some (f_id f),
        (i, rank) \<leftarrow> rank_subquery two_weeks_ago db, i = f_id f]"

text \<open>
  The first term of the \<^verbatim>\<open>order_by\<close>:
  \<^verbatim>\<open>(start_at > cls.remote_updated) & (cls.remote_updated < last_48_hours)\<close>; rows where it
  is false sort first.
\<close>

definition older_bucket :: "timestamp \<Rightarrow> entry \<Rightarrow> bool" where
  "older_bucket start_at e =
     (let last_48_hours = start_at - timedelta_hours 48
      in start_at > remote_updated e \<and> remote_updated e < last_48_hours)"

definition frequency_key :: "timestamp \<Rightarrow> entry \<times> int \<Rightarrow> bool \<times> int \<times> int" where
  "frequency_key start_at row =
     (older_bucket start_at (fst row), snd row, - remote_updated (fst row))"

text \<open>The ordered rows of the query, before any limit.\<close>

definition frequency_ordered ::
    "timestamp \<Rightarrow> database \<Rightarrow> timestamp \<Rightarrow> filters \<Rightarrow> (entry \<times> int) list" where
  "frequency_ordered now db start_at flt =
     (let two_weeks_ago = now - timedelta_days 14
      in sort_key (frequency_key start_at) (frequency_rows two_weeks_ago db flt))"

text \<open>
  A query that has its rows ordered, with the limit and the offset set on it so far;
  \<^verbatim>\<open>.limit(n)\<close> and \<^verbatim>\<open>.offset(n)\<close> replace what was set before.
\<close>

record 'a query =
  q_rows :: "'a list"
  q_limit :: "int option"
  q_offset :: nat

definition limit_query :: "int \<Rightarrow> 'a query \<Rightarrow> 'a query" where
  "limit_query n q = q\<lparr>q_limit := Some n\<rparr>"

definition offset_query :: "nat \<Rightarrow> 'a query \<Rightarrow> 'a query" where
  "offset_query n q = q\<lparr>q_offset := n\<rparr>"

definition execute :: "'a query \<Rightarrow> 'a list" where
  "execute q =
     (case q_limit q of
        None \<Rightarrow> drop (q_offset q) (q_rows q)
      | Some n \<Rightarrow> sql_limit n (drop (q_offset q) (q_rows q)))"

text \<open>
  \<^verbatim>\<open>db.paginate(query, page=page)\<close>: the page size \<open>per_page\<close> is the one of the
  pagination (taken from the request, 20 by default). The pagination sets the limit and
  the offset of the query itself, so the \<^verbatim>\<open>.limit(limit)\<close> that the query carries does
  not bound the page. A page number or a page size below 1, and an empty page other than
  the first, abort with 404. Primary keys are unique, so the joins give each entry once
  and the result's \<^verbatim>\<open>unique()\<close> removes nothing.
\<close>

definition paginate :: "int \<Rightarrow> int \<Rightarrow> 'a query \<Rightarrow> error + 'a list" where
  "paginate per_page page q =
     (if page < 1 \<or> per_page < 1 then Inl NotFound
      else
        let items = execute (offset_query (nat ((page - 1) * per_page)) (limit_query per_page q))
        in if items = [] \<and> page \<noteq> 1 then Inl NotFound else Inr items)"

text \<open>\<^verbatim>\<open>Entry.select_page_by_frequency\<close>; \<open>now\<close> is \<^verbatim>\<open>datetime.datetime.now()\<close>.\<close>

definition select_page_by_frequency ::
    "timestamp \<Rightarrow> int \<Rightarrow> database \<Rightarrow> int \<Rightarrow> timestamp \<Rightarrow> int \<Rightarrow> filters \<Rightarrow> error + entry list" where
  "select_page_by_frequency now per_page db limit start_at page flt =
     paginate per_page page
       (limit_query limit
          \<lparr>q_rows = map fst (frequency_ordered now db start_at flt), q_limit = None,
           q_offset = 0\<rparr>)"

section \<open>Example data\<close>

text \<open>A feed and an entry with the given keys, used to run the model on concrete tables.\<close>

definition example_feed :: "int \<Rightarrow> string \<Rightarrow> feed" where
  "example_feed i nm =
     \<lparr>f_id = i, f_type = ''rss'', f_name = Some nm, f_icon_url = None, f_created = 0,
      f_updated = 0, f_raw_data = None, f_folder = None, f_views = 0,
      f_frequency_rank = None\<rparr>"

definition example_entry :: "int \<Rightarrow> int \<Rightarrow> timestamp \<Rightarrow> entry" where
  "example_entry i fid t =
     \<lparr>entry_id = i, feed_id = Some fid, remote_id = ''r'', title = ''t'', username = None,
      user_url = None, avatar_url = None, body = None, entry_url = None, content_url = None,
      media_url = None, created = 0, updated = 0, remote_created = t, remote_updated = t,
      deleted = None, favorited = None, pinned = None, raw_data = None,
      reblogged_by = None\<rparr>"

text \<open>
  A world in which every request succeeds and no document has paragraphs or images, a
  raw entry that has a created time and no updated time, and a declaration of a table
  with the columns that \<^verbatim>\<open>sync_feed\<close> writes.
\<close>

definition example_env :: env where
  "example_env =
     \<lparr>head_ok = (\<lambda>u. Some True), get_content = (\<lambda>u. Some []),
      paragraphs = (\<lambda>s. []), img_src = (\<lambda>s. None), meta_image = (\<lambda>s. None)\<rparr>"

definition example_raw_entry :: "string \<Rightarrow> string option \<Rightarrow> raw_entry" where
  "example_raw_entry rid summary =
     \<lparr>r_title = Some ''t'', r_link = Some ''l'', r_summary = summary, r_author = None,
      r_source_icon = None, r_media_thumbnail = None, r_media_content = None,
      r_id = Some rid, r_published_parsed = Some 7, r_updated_parsed = None\<rparr>"

definition example_schema :: table_schema where
  "example_schema =
     \<lparr>columns = [''id'', ''feed_id'', ''created'', ''updated'', ''title'', ''title_url'',
        ''avatar_url'', ''username'', ''body'', ''media_url'', ''remote_id'',
        ''remote_created'', ''remote_updated''],
      not_null = [''id'', ''remote_id'', ''title'', ''remote_created'', ''remote_updated'']\<rparr>"

definition no_filters :: filters where
  "no_filters =
     \<lparr>flt_deleted = None, flt_favorited = None, flt_feed_name = None, flt_username = None,
      flt_folder = None\<rparr>"

text \<open>One feed with four entries, whose \<^verbatim>\<open>remote_updated\<close> are 8, 10, 7 and 9.\<close>

definition example_db :: database where
  "example_db =
     \<lparr>feeds = [example_feed 1 ''a''],
      entries = [example_entry 1 1 8, example_entry 2 1 10, example_entry 3 1 7,
                 example_entry 4 1 9]\<rparr>"

text \<open>A table with an entry that is not deleted and one that is.\<close>

definition example_deleted_db :: database where
  "example_deleted_db =
     \<lparr>feeds = [example_feed 1 ''a''],
      entries = [example_entry 1 1 8, (example_entry 2 1 3)\<lparr>deleted := Some 5\<rparr>]\<rparr>"

text \<open>
  Two feeds at the time 0: the first has one entry, 72 hours old, the second has three,
  1, 2 and 100 hours old. A third table holds one feed whose only entry is 30 days old.
\<close>

definition example_frequency_db :: database where
  "example_frequency_db =
     \<lparr>feeds = [example_feed 1 ''a'', example_feed 2 ''b''],
      entries = [example_entry 1 1 (- timedelta_hours 72), example_entry 2 2 (- timedelta_hours 100),
                 example_entry 3 2 (- timedelta_hours 2), example_entry 4 2 (- timedelta_hours 1)]\<rparr>"

definition example_stale_db :: database where
  "example_stale_db =
     \<lparr>feeds = [example_feed 1 ''a''],
      entries = [example_entry 1 1 (- timedelta_days 30)]\<rparr>"

text \<open>
  A stored row of feed 1 that the user has marked as favorite, and two canonical
  entries with its remote identifier.
\<close>

definition example_row :: row where
  "example_row =
     apply_values
       [(''id'', Num 1), (''feed_id'', Num 1), (''remote_id'', Str ''r''), (''title'', Str ''old''),
        (''created'', Ts 1), (''updated'', Ts 1), (''remote_created'', Ts 1),
        (''remote_updated'', Ts 1), (''favorited'', Ts 3)]
       (\<lambda>c. Null)"

definition example_values :: "string \<Rightarrow> timestamp \<Rightarrow> column_values" where
  "example_values t u =
     [(''remote_id'', Str ''r''), (''title'', Str t), (''body'', Null),
      (''remote_created'', Ts 1), (''remote_updated'', Ts u)]"

section \<open>Properties of the frequency ranks\<close>

lemma assign_ranks_map:
  "distinct (map (\<lambda>r. f_id (fst r)) rows) \<Longrightarrow>
   assign_ranks rows fs =
     map (\<lambda>g. case map_of (map (\<lambda>(f, c). (f_id f, c)) rows) (f_id g) of
                 None \<Rightarrow> g
               | Some c \<Rightarrow> g\<lparr>f_frequency_rank := Some (batch_rank c)\<rparr>) fs"
proof (induction rows arbitrary: fs)
  case Nil
  show ?case by simp
next
  case (Cons row rows)
  obtain f c where row: "row = (f, c)" by (cases row)
  from Cons.prems row have fresh: "f_id f \<notin> (\<lambda>r. f_id (fst r)) ` set rows"
    and dist: "distinct (map (\<lambda>r. f_id (fst r)) rows)" by auto
  have none: "map_of (map (\<lambda>(f, c). (f_id f, c)) rows) (f_id f) = None"
    using fresh by (force simp: map_of_eq_None_iff image_iff)
  show ?case
    unfolding row by (simp add: Cons.IH [OF dist] none)
qed

lemma feed_counts_keys:
  "map (\<lambda>r. f_id (fst r)) (filter (\<lambda>(f, cnt). 0 < cnt) (map (\<lambda>f. (f, cnt f)) fs))
     = map f_id (filter (\<lambda>f. 0 < cnt f) fs)"
  by (induction fs) auto

lemma distinct_feed_counts:
  assumes "distinct (map f_id (feeds db))"
  shows "distinct (map (\<lambda>r. f_id (fst r)) (feed_counts t db))"
proof -
  let ?rows = "filter (\<lambda>(f, cnt). 0 < cnt)
      (map (\<lambda>f. (f, int (length (recent_entries t db f)))) (feeds db))"
  have "distinct (map (\<lambda>r. f_id (fst r)) ?rows)"
    unfolding feed_counts_keys using assms by (rule distinct_map_filter)
  moreover have "mset (map (\<lambda>r. f_id (fst r)) (feed_counts t db)) = mset (map (\<lambda>r. f_id (fst r)) ?rows)"
    by (simp add: feed_counts_def)
  ultimately show ?thesis by (metis mset_eq_imp_distinct_iff)
qed

lemma feed_counts_lookup:
  assumes "distinct (map f_id (feeds db))" and "f \<in> set (feeds db)"
    and "0 < length (recent_entries t db f)"
  shows "map_of (map (\<lambda>(f, c). (f_id f, c)) (feed_counts t db)) (f_id f)
     = Some (int (length (recent_entries t db f)))"
proof -
  have "(f, int (length (recent_entries t db f))) \<in> set (feed_counts t db)"
    using assms(2,3) by (auto simp: feed_counts_def)
  then have mem: "(f_id f, int (length (recent_entries t db f)))
      \<in> set (map (\<lambda>(f, c). (f_id f, c)) (feed_counts t db))"
    by force
  have eq: "map fst (map (\<lambda>(f, c). (f_id f, c)) (feed_counts t db))
      = map (\<lambda>r. f_id (fst r)) (feed_counts t db)"
    by (simp add: case_prod_unfold)
  have dist: "distinct (map fst (map (\<lambda>(f, c). (f_id f, c)) (feed_counts t db)))"
    unfolding eq by (rule distinct_feed_counts [OF assms(1)])
  show ?thesis by (rule map_of_is_SomeI [OF dist mem])
qed

lemma feed_counts_absent:
  assumes "distinct (map f_id (feeds db))" and "f \<in> set (feeds db)"
    and "length (recent_entries t db f) = 0"
  shows "map_of (map (\<lambda>(f, c). (f_id f, c)) (feed_counts t db)) (f_id f) = None"
proof -
  have inj: "inj_on f_id (set (feeds db))"
    using assms(1) by (simp add: distinct_map)
  have "f_id f \<notin> (\<lambda>r. f_id (fst r)) ` set (feed_counts t db)"
  proof
    assume "f_id f \<in> (\<lambda>r. f_id (fst r)) ` set (feed_counts t db)"
    then obtain g where g: "g \<in> set (feeds db)" "0 < length (recent_entries t db g)"
      and eq: "f_id g = f_id f"
      by (auto simp: feed_counts_def)
    from inj g(1) assms(2) eq have "g = f" by (auto dest: inj_onD)
    with g(2) assms(3) show False by simp
  qed
  then show ?thesis
    by (force simp: map_of_eq_None_iff image_iff)
qed

text \<open>
  Claim C3. For every feed, the batch ranker stores the rank given by the fixed
  thresholds of the count \<open>n\<close> of the feed's entries whose \<^verbatim>\<open>remote_updated\<close> lies in
  the last 14 days: \<open>n \<le> 2\<close> gives 1, \<open>n < 5\<close> gives 2, \<open>n < 15\<close> gives 3, \<open>n < 45\<close>
  gives 3, \<open>n < 300\<close> gives 4 and \<open>n \<ge> 300\<close> gives 5; the counts 2, 4, 14, 44, 299
  and 300 give the ranks 1, 2, 3, 3, 4 and 5. The ranker's query counts over an inner
  join, so the counts it maps start at 1: a feed with no such entry has no row and is
  left as it is.
\<close>

theorem set_frequency_ranks_thresholds:
  assumes "distinct (map f_id (feeds db))"
    and "f \<in> set (feeds db)"
    and "n = int (length (recent_entries (now - timedelta_days 14) db f))"
  shows "(\<exists>g \<in> set (feeds (set_frequency_ranks now db)).
            f_id g = f_id f \<and>
            (n = 0 \<longrightarrow> g = f) \<and>
            (0 < n \<longrightarrow> g = f\<lparr>f_frequency_rank := Some (batch_rank n)\<rparr>) \<and>
            (0 < n \<and> n \<le> 2 \<longrightarrow> f_frequency_rank g = Some 1) \<and>
            (2 < n \<and> n < 5 \<longrightarrow> f_frequency_rank g = Some 2) \<and>
            (5 \<le> n \<and> n < 15 \<longrightarrow> f_frequency_rank g = Some 3) \<and>
            (15 \<le> n \<and> n < 45 \<longrightarrow> f_frequency_rank g = Some 3) \<and>
            (45 \<le> n \<and> n < 300 \<longrightarrow> f_frequency_rank g = Some 4) \<and>
            (300 \<le> n \<longrightarrow> f_frequency_rank g = Some 5))
         \<and> batch_rank 2 = 1 \<and> batch_rank 4 = 2 \<and> batch_rank 14 = 3
         \<and> batch_rank 44 = 3 \<and> batch_rank 299 = 4 \<and> batch_rank 300 = 5"
proof -
  let ?t = "now - timedelta_days 14"
  let ?g = "if n = 0 then f else f\<lparr>f_frequency_rank := Some (batch_rank n)\<rparr>"
  have n0: "0 \<le> n" using assms(3) by simp
  have look: "map_of (map (\<lambda>(f, c). (f_id f, c)) (feed_counts ?t db)) (f_id f)
      = (if n = 0 then None else Some n)"
    using feed_counts_absent [OF assms(1,2), of ?t] feed_counts_lookup [OF assms(1,2), of ?t]
      assms(3)
    by (cases "n = 0") simp_all
  have "assign_ranks (feed_counts ?t db) (feeds db) =
      map (\<lambda>g. case map_of (map (\<lambda>(f, c). (f_id f, c)) (feed_counts ?t db)) (f_id g) of
                 None \<Rightarrow> g
               | Some c \<Rightarrow> g\<lparr>f_frequency_rank := Some (batch_rank c)\<rparr>) (feeds db)"
    by (rule assign_ranks_map [OF distinct_feed_counts [OF assms(1)]])
  then have mem: "?g \<in> set (feeds (set_frequency_ranks now db))"
    using assms(2) look
    by (force simp: set_frequency_ranks_def Let_def image_iff)
  have ranks: "batch_rank 2 = 1 \<and> batch_rank 4 = 2 \<and> batch_rank 14 = 3
         \<and> batch_rank 44 = 3 \<and> batch_rank 299 = 4 \<and> batch_rank 300 = 5"
    by (simp add: batch_rank_def)
  have "f_id ?g = f_id f \<and>
            (n = 0 \<longrightarrow> ?g = f) \<and>
            (0 < n \<longrightarrow> ?g = f\<lparr>f_frequency_rank := Some (batch_rank n)\<rparr>) \<and>
            (0 < n \<and> n \<le> 2 \<longrightarrow> f_frequency_rank ?g = Some 1) \<and>
            (2 < n \<and> n < 5 \<longrightarrow> f_frequency_rank ?g = Some 2) \<and>
            (5 \<le> n \<and> n < 15 \<longrightarrow> f_frequency_rank ?g = Some 3) \<and>
            (15 \<le> n \<and> n < 45 \<longrightarrow> f_frequency_rank ?g = Some 3) \<and>
            (45 \<le> n \<and> n < 300 \<longrightarrow> f_frequency_rank ?g = Some 4) \<and>
            (300 \<le> n \<longrightarrow> f_frequency_rank ?g = Some 5)"
    by (simp add: batch_rank_def)
  with mem ranks show ?thesis by blast
qed

theorem set_frequency_ranks_thresholds_witness:
  "distinct (map f_id [example_feed 1 ''a'', example_feed 2 ''b''])
   \<and> (\<exists>g \<in> set (feeds (set_frequency_ranks 0
         \<lparr>feeds = [example_feed 1 ''a'', example_feed 2 ''b''],
          entries = [example_entry 1 1 0, example_entry 2 1 (-5), example_entry 3 1 7,
                     example_entry 4 2 3]\<rparr>)).
         f_id g = 1 \<and> f_frequency_rank g = Some 2)"
proof -
  let ?db = "\<lparr>feeds = [example_feed 1 ''a'', example_feed 2 ''b''],
          entries = [example_entry 1 1 0, example_entry 2 1 (-5), example_entry 3 1 7,
                     example_entry 4 2 3]\<rparr>"
  have d: "distinct (map f_id (feeds ?db))" by (simp add: example_feed_def)
  have m: "example_feed 1 ''a'' \<in> set (feeds ?db)" by simp
  have n: "(3::int) = int (length (recent_entries (0 - timedelta_days 14) ?db (example_feed 1 ''a'')))"
    by (simp add: recent_entries_def example_feed_def example_entry_def timedelta_days_def)
  have i: "f_id (example_feed 1 ''a'') = 1" by (simp add: example_feed_def)
  from set_frequency_ranks_thresholds [OF d m n]
  obtain g where "g \<in> set (feeds (set_frequency_ranks 0 ?db))"
    and "f_id g = f_id (example_feed 1 ''a'')"
    and "2 < (3::int) \<and> (3::int) < 5 \<longrightarrow> f_frequency_rank g = Some 2"
    by blast
  then have "\<exists>g \<in> set (feeds (set_frequency_ranks 0 ?db)).
      f_id g = f_id (example_feed 1 ''a'') \<and> f_frequency_rank g = Some 2"
    by auto
  then show ?thesis
    unfolding i using d by simp
qed

text \<open>
  Claim C2. \<^verbatim>\<open>Feed.freq_bucket\<close> and the batch ranker disagree exactly on the counts
  from 45 to 299: the registered function has no branch for \<open>count < 300\<close> and returns 5
  where the batch ranker assigns 4; on every other count the two ranks are equal. At the
  count 45 the two ranks are 5 and 4.
\<close>

theorem freq_bucket_differs_from_batch_rank:
  "freq_bucket n = (if 45 \<le> n \<and> n < 300 then 5 else batch_rank n)
   \<and> (batch_rank n = 4) = (45 \<le> n \<and> n < 300)
   \<and> freq_bucket n \<noteq> 4
   \<and> freq_bucket 45 = 5 \<and> batch_rank 45 = 4"
  by (simp add: freq_bucket_def batch_rank_def)

section \<open>Properties of the parser selection\<close>

text \<open>
  Claim C4, as the code has it. For a feed whose URL contains both \<^verbatim>\<open>github.com\<close> and
  \<^verbatim>\<open>private.atom\<close>, the selection returns the GitHub parser exactly when the
  link-aggregator test and the Mastodon test both answer no. The classes are tried in
  the order of their definition, link aggregator, Mastodon, GitHub, Goodreads: a feed
  that the Mastodon test also accepts gets the Mastodon parser, one that the
  link-aggregator test accepts gets the link-aggregator parser, and an exception of the
  link-aggregator test (a feed without a link) ends the selection.
\<close>

theorem select_parser_github:
  assumes "str_in ''github.com'' feed_url" and "str_in ''private.atom'' feed_url"
  shows "(select_parser feed_url fd = Inr GithubFeedParser) =
           (is_compatible LinkAggregatorParser feed_url fd = Inr False \<and>
            is_compatible MastodonUserParser feed_url fd = Inr False)
         \<and> (is_compatible LinkAggregatorParser feed_url fd = Inr False \<and>
            is_compatible MastodonUserParser feed_url fd = Inr True \<longrightarrow>
            select_parser feed_url fd = Inr MastodonUserParser)
         \<and> (is_compatible LinkAggregatorParser feed_url fd = Inr True \<longrightarrow>
            select_parser feed_url fd = Inr LinkAggregatorParser)
         \<and> (\<forall>e. is_compatible LinkAggregatorParser feed_url fd = Inl e \<longrightarrow>
            select_parser feed_url fd = Inl e)"
proof -
  have gh: "is_compatible GithubFeedParser feed_url fd = Inr True"
    using assms by simp
  obtain m where m: "is_compatible MastodonUserParser feed_url fd = Inr m"
    by simp
  show ?thesis
  proof (cases "is_compatible LinkAggregatorParser feed_url fd")
    case (Inl e)
    then show ?thesis
      by (simp add: select_parser_def subclasses_def then_do_def)
  next
    case (Inr l)
    then show ?thesis
      using gh m
      by (cases l; cases m)
         (simp_all add: select_parser_def subclasses_def then_do_def del: is_compatible.simps)
  qed
qed

theorem select_parser_github_witness:
  "str_in ''github.com'' ''https://github.com/u.private.atom''
   \<and> str_in ''private.atom'' ''https://github.com/u.private.atom''
   \<and> select_parser ''https://github.com/u.private.atom''
        \<lparr>fd_title = Some ''Private Feed'', fd_link = Some ''https://github.com/'',
         fd_generator = None\<rparr> = Inr GithubFeedParser"
proof -
  let ?url = "''https://github.com/u.private.atom''"
  let ?fd = "\<lparr>fd_title = Some ''Private Feed'', fd_link = Some ''https://github.com/'',
         fd_generator = None\<rparr>"
  have a: "str_in ''github.com'' ?url" by simp
  have b: "str_in ''private.atom'' ?url" by simp
  have l: "is_compatible LinkAggregatorParser ?url ?fd = Inr False"
    by (simp add: then_do_def getitem_def KNOWN_AGGREGATORS_def)
  have m: "is_compatible MastodonUserParser ?url ?fd = Inr False"
    by (simp add: lower_def)
  from select_parser_github [OF a b, of ?fd] l m
  have "select_parser ?url ?fd = Inr GithubFeedParser" by blast
  with a b show ?thesis by blast
qed

theorem select_parser_github_counterexample:
  "str_in ''github.com'' ''https://github.com/u.private.atom''
   \<and> str_in ''private.atom'' ''https://github.com/u.private.atom''
   \<and> select_parser ''https://github.com/u.private.atom''
        \<lparr>fd_title = Some ''Private Feed'', fd_link = Some ''https://github.com/'',
         fd_generator = Some ''Mastodon''\<rparr> = Inr MastodonUserParser"
  by (simp add: select_parser_def subclasses_def then_do_def getitem_def
      KNOWN_AGGREGATORS_def lower_def lower_char_def)

section \<open>Properties of the normalizer and of the sync loop\<close>

lemma parse_malformed:
  "r_link entry = None \<or> r_summary entry = None \<Longrightarrow> parse ev cls fd entry = Inl ValueError"
  by (simp add: parse_def)

lemma sync_entries_append:
  "sync_entries sch ev cls fd fetched fid (xs @ ys) t =
     then_do (sync_entries sch ev cls fd fetched fid xs t)
       (\<lambda>t'. sync_entries sch ev cls fd fetched fid ys t')"
proof (induction xs arbitrary: t)
  case Nil
  show ?case by (simp add: then_do_def)
next
  case (Cons x xs)
  show ?case
    by (cases "parse ev cls fd x")
       (simp_all add: Cons.IH then_do_def Let_def split: sum.splits)
qed

lemma sync_entries_skip:
  assumes "parse ev cls fd entry = Inl e"
  shows "sync_entries sch ev cls fd fetched fid (pre @ entry # post) t =
         sync_entries sch ev cls fd fetched fid (pre @ post) t"
  using assms by (simp add: sync_entries_append)

text \<open>
  Claim C8. A raw entry without a link or without a summary makes \<^verbatim>\<open>parse\<close> raise the
  malformed-entry error (\<^verbatim>\<open>ValueError\<close>) for that entry alone: wherever it stands in
  the batch, the loop of \<^verbatim>\<open>sync_feed\<close> treats the batch as if the entry were not in
  it, so the entries before and after it are normalized and written as without it, and
  the whole \<^verbatim>\<open>sync_feed\<close> returns what it returns for the feed without that entry.
\<close>

theorem malformed_entry_is_skipped:
  assumes "r_link entry = None \<or> r_summary entry = None"
  shows "parse ev cls fd entry = Inl ValueError
         \<and> sync_entries sch ev cls fd fetched fid (pre @ entry # post) t =
           sync_entries sch ev cls fd fetched fid (pre @ post) t
         \<and> sync_feed sch ev (\<lambda>u. pf\<lparr>pf_entries := pre @ entry # post\<rparr>) now1 now2 now3 db_feed t =
           sync_feed sch ev (\<lambda>u. pf\<lparr>pf_entries := pre @ post\<rparr>) now1 now2 now3 db_feed t"
proof -
  have p: "parse ev cls fd entry = Inl ValueError" for cls fd
    using assms by (rule parse_malformed)
  have s: "sync_entries sch ev cls fd fetched fid (pre @ entry # post) t =
           sync_entries sch ev cls fd fetched fid (pre @ post) t" for cls fd fetched fid
    by (rule sync_entries_skip [OF p])
  show ?thesis
    by (simp add: p s sync_feed_def Let_def)
qed

lemma example_parse:
  "parse example_env BaseParser fd (example_raw_entry rid (Some ''s'')) =
     Inr [(''title'', Str ''t''), (''title_url'', Str ''l''), (''avatar_url'', Null),
          (''username'', Null), (''body'', Str []), (''media_url'', Null),
          (''remote_id'', Str rid), (''remote_created'', Ts 7000000),
          (''remote_updated'', Ts 7000000)]"
  by (simp add: parse_def FIELDS_def parse_field_def then_do_def getitem_def
      example_raw_entry_def example_env_def parse_title_def parse_title_url_def
      parse_avatar_url_def parse_username_def parse_body_def parse_media_url_def
      media_from_page_def parse_remote_id_def parse_remote_created_def
      parse_remote_updated_def getitem_updated_parsed_def to_datetime_def opt_str_def)

theorem malformed_entry_is_skipped_witness:
  "r_summary (example_raw_entry ''b'' None) = None
   \<and> (case sync_entries example_schema example_env BaseParser
        \<lparr>fd_title = None, fd_link = None, fd_generator = None\<rparr> 9 1
         [example_raw_entry ''a'' (Some ''s''), example_raw_entry ''b'' None,
          example_raw_entry ''c'' (Some ''s'')] [] of
        Inl e \<Rightarrow> []
      | Inr t \<Rightarrow> map (\<lambda>r. r ''remote_id'') t) = [Str ''a'', Str ''c'']"
proof -
  have bad: "r_link (example_raw_entry ''b'' None) = None
      \<or> r_summary (example_raw_entry ''b'' None) = None"
    by (simp add: example_raw_entry_def)
  have skip: "sync_entries example_schema example_env BaseParser
        \<lparr>fd_title = None, fd_link = None, fd_generator = None\<rparr> 9 1
        ([example_raw_entry ''a'' (Some ''s'')] @ example_raw_entry ''b'' None
          # [example_raw_entry ''c'' (Some ''s'')]) [] =
      sync_entries example_schema example_env BaseParser
        \<lparr>fd_title = None, fd_link = None, fd_generator = None\<rparr> 9 1
        ([example_raw_entry ''a'' (Some ''s'')] @ [example_raw_entry ''c'' (Some ''s'')]) []"
    using malformed_entry_is_skipped [OF bad] by blast
  have run: "(case sync_entries example_schema example_env BaseParser
        \<lparr>fd_title = None, fd_link = None, fd_generator = None\<rparr> 9 1
        ([example_raw_entry ''a'' (Some ''s'')] @ [example_raw_entry ''c'' (Some ''s'')]) [] of
        Inl e \<Rightarrow> []
      | Inr t \<Rightarrow> map (\<lambda>r. r ''remote_id'') t) = [Str ''a'', Str ''c'']"
    by (simp add: example_parse sqlite_upsert_def example_schema_def apply_values_def
        insert_defaults_def conflicts_def next_id_def id_num_def then_do_def Let_def)
  show ?thesis
    using skip run by (simp add: example_raw_entry_def)
qed

text \<open>
  Claim C9. A raw entry with a link, a summary and a created time whose source omits
  the updated time is normalized without an exception whenever the parsers of the other
  fields raise none, and the canonical entry has \<^verbatim>\<open>remote_updated\<close> equal to
  \<^verbatim>\<open>remote_created\<close>, a timestamp and not \<^verbatim>\<open>NULL\<close>.
\<close>

theorem omitted_updated_defaults_to_created:
  assumes "r_link entry \<noteq> None" and "r_summary entry \<noteq> None"
    and "r_published_parsed entry = Some st" and "r_updated_parsed entry = None"
    and "\<forall>field \<in> set FIELDS. field \<noteq> ''remote_updated'' \<longrightarrow>
           (\<exists>v. parse_field ev cls fd field entry = Inr v)"
  shows "\<exists>vs. parse ev cls fd entry = Inr vs
           \<and> map_of vs ''remote_created'' = Some (Ts (to_datetime st))
           \<and> map_of vs ''remote_updated'' = Some (Ts (to_datetime st))"
proof -
  from assms(5) obtain v1 v2 v3 v4 v5 v6 v7 where v:
    "parse_field ev cls fd ''title'' entry = Inr v1"
    "parse_field ev cls fd ''title_url'' entry = Inr v2"
    "parse_field ev cls fd ''avatar_url'' entry = Inr v3"
    "parse_field ev cls fd ''username'' entry = Inr v4"
    "parse_field ev cls fd ''body'' entry = Inr v5"
    "parse_field ev cls fd ''media_url'' entry = Inr v6"
    "parse_field ev cls fd ''remote_id'' entry = Inr v7"
    unfolding FIELDS_def by auto
  have c: "parse_field ev cls fd ''remote_created'' entry = Inr (Ts (to_datetime st))"
    using assms(3) by (simp add: parse_field_def parse_remote_created_def then_do_def getitem_def)
  have u: "parse_field ev cls fd ''remote_updated'' entry = Inr (Ts (to_datetime st))"
    using assms(3,4)
    by (simp add: parse_field_def parse_remote_updated_def getitem_updated_parsed_def
        then_do_def getitem_def)
  have "parse ev cls fd entry =
      Inr [(''title'', v1), (''title_url'', v2), (''avatar_url'', v3), (''username'', v4),
           (''body'', v5), (''media_url'', v6), (''remote_id'', v7),
           (''remote_created'', Ts (to_datetime st)), (''remote_updated'', Ts (to_datetime st))]"
    using assms(1,2) by (simp add: parse_def FIELDS_def v c u then_do_def)
  then show ?thesis by simp
qed

theorem omitted_updated_defaults_to_created_witness:
  "r_updated_parsed (example_raw_entry ''a'' (Some ''s'')) = None
   \<and> r_published_parsed (example_raw_entry ''a'' (Some ''s'')) = Some 7
   \<and> (\<exists>vs. parse example_env BaseParser \<lparr>fd_title = None, fd_link = None, fd_generator = None\<rparr>
           (example_raw_entry ''a'' (Some ''s'')) = Inr vs
         \<and> map_of vs ''remote_created'' = Some (Ts 7000000)
         \<and> map_of vs ''remote_updated'' = Some (Ts 7000000))"
proof -
  let ?e = "example_raw_entry ''a'' (Some ''s'')"
  let ?fd = "\<lparr>fd_title = None, fd_link = None, fd_generator = None\<rparr>"
  have a: "r_link ?e \<noteq> None" and b: "r_summary ?e \<noteq> None"
    and c: "r_published_parsed ?e = Some 7" and d: "r_updated_parsed ?e = None"
    by (simp_all add: example_raw_entry_def)
  have e: "\<forall>field \<in> set FIELDS. field \<noteq> ''remote_updated'' \<longrightarrow>
           (\<exists>v. parse_field example_env BaseParser ?fd field ?e = Inr v)"
    by (simp add: FIELDS_def parse_field_def then_do_def getitem_def
      example_raw_entry_def example_env_def parse_title_def parse_title_url_def
      parse_avatar_url_def parse_username_def parse_body_def parse_media_url_def
      media_from_page_def parse_remote_id_def parse_remote_created_def opt_str_def)
  show ?thesis
    using omitted_updated_defaults_to_created [OF a b c d e] c d
    by (simp add: to_datetime_def)
qed

section \<open>Properties of the queries\<close>

lemma filtered_query_deleted:
  "filtered_query db flt e \<Longrightarrow>
     (if truthy_flag (flt_deleted flt) then deleted e \<noteq> None else deleted e = None)"
  by (simp add: filtered_query_def)

lemma set_sql_limit: "set (sql_limit n xs) \<subseteq> set xs"
  by (auto simp: sql_limit_def dest: in_set_takeD)

lemma set_execute: "set (execute q) \<subseteq> set (q_rows q)"
  using set_sql_limit [of _ "drop (q_offset q) (q_rows q)"]
  by (auto simp: execute_def split: option.splits dest: in_set_dropD)

lemma paginate_items:
  "paginate per_page page q = Inr items \<Longrightarrow>
     items = take (nat per_page) (drop (nat ((page - 1) * per_page)) (q_rows q))"
  by (auto simp: paginate_def Let_def execute_def offset_query_def limit_query_def sql_limit_def
      split: if_splits)

lemma paginate_subset:
  "paginate per_page page q = Inr items \<Longrightarrow> set items \<subseteq> set (q_rows q)"
  by (auto dest!: paginate_items dest: in_set_takeD in_set_dropD)

lemma frequency_rows_filtered:
  "(e, r) \<in> set (frequency_rows t db flt) \<Longrightarrow> e \<in> set (entries db) \<and> filtered_query db flt e"
  by (auto simp: frequency_rows_def)

lemma frequency_ordered_filtered:
  "e \<in> fst ` set (frequency_ordered now db start_at flt) \<Longrightarrow>
     e \<in> set (entries db) \<and> filtered_query db flt e"
  by (auto simp: frequency_ordered_def Let_def dest: frequency_rows_filtered)

text \<open>
  Claim C10. Each of the three retrievals (pinned, chronological, by frequency) returns
  only entries on one side of the soft-delete marker, whatever the other filters are:
  entries whose \<^verbatim>\<open>deleted\<close> is set when the \<^verbatim>\<open>deleted\<close> filter is true, and entries
  whose \<^verbatim>\<open>deleted\<close> is null when it is not (absent, \<^verbatim>\<open>None\<close> or \<^verbatim>\<open>False\<close>).
\<close>

theorem retrievals_partition_on_deleted:
  "(\<forall>e \<in> set (select_pinned db flt).
      if truthy_flag (flt_deleted flt) then deleted e \<noteq> None else deleted e = None)
   \<and> (\<forall>e \<in> set (select_page_chronologically db limit older_than flt).
      if truthy_flag (flt_deleted flt) then deleted e \<noteq> None else deleted e = None)
   \<and> (\<forall>items. select_page_by_frequency now per_page db limit start_at page flt = Inr items \<longrightarrow>
        (\<forall>e \<in> set items.
           if truthy_flag (flt_deleted flt) then deleted e \<noteq> None else deleted e = None))"
proof (intro conjI ballI allI impI)
  fix e assume "e \<in> set (select_pinned db flt)"
  then have "filtered_query db flt e" by (simp add: select_pinned_def)
  then show "if truthy_flag (flt_deleted flt) then deleted e \<noteq> None else deleted e = None"
    by (rule filtered_query_deleted)
next
  fix e assume "e \<in> set (select_page_chronologically db limit older_than flt)"
  then have "filtered_query db flt e"
    using set_sql_limit by (fastforce simp: select_page_chronologically_def)
  then show "if truthy_flag (flt_deleted flt) then deleted e \<noteq> None else deleted e = None"
    by (rule filtered_query_deleted)
next
  fix items e
  assume "select_page_by_frequency now per_page db limit start_at page flt = Inr items"
    and "e \<in> set items"
  then have "e \<in> fst ` set (frequency_ordered now db start_at flt)"
    unfolding select_page_by_frequency_def
    by (auto dest!: paginate_subset simp: limit_query_def)
  then have "filtered_query db flt e" by (rule frequency_ordered_filtered [THEN conjunct2])
  then show "if truthy_flag (flt_deleted flt) then deleted e \<noteq> None else deleted e = None"
    by (rule filtered_query_deleted)
qed


theorem retrievals_partition_on_deleted_witness:
  "list_all (\<lambda>e. deleted e = None)
     (select_page_chronologically example_deleted_db 10 None no_filters)
   \<and> length (select_page_chronologically example_deleted_db 10 None no_filters) = 1
   \<and> list_all (\<lambda>e. deleted e \<noteq> None)
     (select_page_chronologically example_deleted_db 10 None (no_filters\<lparr>flt_deleted := Some True\<rparr>))
   \<and> length (select_page_chronologically example_deleted_db 10 None
        (no_filters\<lparr>flt_deleted := Some True\<rparr>)) = 1"
proof -
  have f: "\<not> truthy_flag (flt_deleted no_filters)"
    and t: "truthy_flag (flt_deleted (no_filters\<lparr>flt_deleted := Some True\<rparr>))"
    by (simp_all add: truthy_flag_def no_filters_def)
  have a: "list_all (\<lambda>e. deleted e = None)
     (select_page_chronologically example_deleted_db 10 None no_filters)"
    using retrievals_partition_on_deleted [of example_deleted_db no_filters 10 None] f
    by (simp add: list_all_iff)
  have b: "list_all (\<lambda>e. deleted e \<noteq> None)
     (select_page_chronologically example_deleted_db 10 None (no_filters\<lparr>flt_deleted := Some True\<rparr>))"
    using retrievals_partition_on_deleted
      [of example_deleted_db "no_filters\<lparr>flt_deleted := Some True\<rparr>" 10 None] t
    by (simp add: list_all_iff)
  have c: "length (select_page_chronologically example_deleted_db 10 None no_filters) = 1"
    "length (select_page_chronologically example_deleted_db 10 None
        (no_filters\<lparr>flt_deleted := Some True\<rparr>)) = 1"
    by (simp_all add: select_page_chronologically_def sql_limit_def example_deleted_db_def
        no_filters_def filtered_query_def truthy_flag_def truthy_str_def example_entry_def)
  from a b c show ?thesis by blast
qed

lemma strict_desc_filter_drop:
  "sorted_wrt (\<lambda>a b. remote_updated b < remote_updated a) xs \<Longrightarrow> i < length xs \<Longrightarrow>
     filter (\<lambda>e. remote_updated e < remote_updated (xs ! i)) xs = drop (Suc i) xs"
proof (induction xs arbitrary: i)
  case Nil
  then show ?case by simp
next
  case (Cons x xs)
  show ?case
  proof (cases i)
    case 0
    have "filter (\<lambda>e. remote_updated e < remote_updated x) xs = xs"
      using Cons.prems(1) by (auto intro: filter_True)
    then show ?thesis using 0 by simp
  next
    case (Suc j)
    then have j: "j < length xs" using Cons.prems(2) by simp
    have "remote_updated (xs ! j) < remote_updated x"
      using Cons.prems(1) j by auto
    then show ?thesis
      using Suc Cons.IH [OF _ j] Cons.prems(1) by simp
  qed
qed

lemma chronological_strict:
  assumes "distinct (map remote_updated ys)"
  shows "sorted_wrt (\<lambda>a b. remote_updated b < remote_updated a)
           (sort_key (\<lambda>e. - remote_updated e) ys)"
proof -
  let ?xs = "sort_key (\<lambda>e. - remote_updated e) ys"
  have "mset (map remote_updated ?xs) = mset (map remote_updated ys)" by simp
  then have d: "distinct (map remote_updated ?xs)"
    using assms by (metis mset_eq_imp_distinct_iff)
  have "map (\<lambda>e. - remote_updated e) ?xs = map uminus (map remote_updated ?xs)"
    by simp
  then have d': "distinct (map (\<lambda>e. - remote_updated e) ?xs)"
    using d by (simp only: distinct_map [of uminus]) (simp add: inj_on_def)
  have s: "sorted (map (\<lambda>e. - remote_updated e) ?xs)" by (rule sorted_sort_key)
  have "sorted_wrt (<) (map (\<lambda>e. - remote_updated e) ?xs)"
    using s d' by (simp only: strict_sorted_iff)
  then show ?thesis by (simp add: sorted_wrt_map)
qed


lemma chronological_next_page:
  assumes lim: "0 \<le> limit"
    and dist: "distinct (map remote_updated (filter (filtered_query db flt) (entries db)))"
    and ne: "select_page_chronologically db limit older_than flt \<noteq> []"
  shows "select_page_chronologically db limit older_than flt @
         select_page_chronologically db limit
           (Some (remote_updated (last (select_page_chronologically db limit older_than flt)))) flt
       = select_page_chronologically db (2 * limit) older_than flt"
proof -
  define c where "c = (\<lambda>e::entry. case older_than of None \<Rightarrow> True | Some t \<Rightarrow> remote_updated e < t)"
  define ys where "ys = filter (\<lambda>e. filtered_query db flt e \<and> c e) (entries db)"
  define xs where "xs = sort_key (\<lambda>e. - remote_updated e) ys"
  define n where "n = nat limit"
  define k where "k = min n (length xs)"
  have page: "select_page_chronologically db limit older_than flt = take n xs"
    using lim by (simp add: select_page_chronologically_def sql_limit_def xs_def ys_def c_def n_def)
  have page2n: "select_page_chronologically db (2 * limit) older_than flt = take (2 * n) xs"
    using lim
    by (simp add: select_page_chronologically_def sql_limit_def xs_def ys_def c_def n_def
        nat_mult_distrib)
  from ne page have "take n xs \<noteq> []" by simp
  then have kpos: "0 < k" by (auto simp: k_def)
  have "k \<le> length xs" by (simp add: k_def)
  with kpos have klen: "k - 1 < length xs" by arith
  have len: "length (take n xs) = k" by (simp add: k_def)
  have "k \<le> n" by (simp add: k_def)
  with kpos have "k - 1 < n" by arith
  then have "take n xs ! (k - 1) = xs ! (k - 1)" by (rule nth_take)
  moreover have "last (take n xs) = take n xs ! (length (take n xs) - 1)"
    using \<open>take n xs \<noteq> []\<close> by (rule last_conv_nth)
  ultimately have last: "last (take n xs) = xs ! (k - 1)"
    unfolding len by simp
  define x where "x = remote_updated (xs ! (k - 1))"
  have "xs ! (k - 1) \<in> set xs" using klen by simp
  then have "xs ! (k - 1) \<in> set ys" by (simp add: xs_def)
  then have cx: "c (xs ! (k - 1))" by (simp add: ys_def)
  have below: "remote_updated e < x \<Longrightarrow> c e" for e
    using cx by (auto simp: c_def x_def split: option.splits)
  have ys_eq: "ys = filter c (filter (filtered_query db flt) (entries db))"
    by (simp add: ys_def conj_commute)
  have "distinct (map remote_updated ys)"
    unfolding ys_eq using dist by (rule distinct_map_filter)
  then have strict: "sorted_wrt (\<lambda>a b. remote_updated b < remote_updated a) xs"
    unfolding xs_def by (rule chronological_strict)
  have "filter (\<lambda>e. filtered_query db flt e \<and> remote_updated e < x) (entries db)
      = filter (\<lambda>e. remote_updated e < x) ys"
    unfolding ys_def using below by (auto intro: filter_cong)
  then have "sort_key (\<lambda>e. - remote_updated e)
        (filter (\<lambda>e. filtered_query db flt e \<and> remote_updated e < x) (entries db))
      = filter (\<lambda>e. remote_updated e < x) xs"
    by (simp add: xs_def filter_sort)
  also have "\<dots> = drop (Suc (k - 1)) xs"
    unfolding x_def by (rule strict_desc_filter_drop [OF strict klen])
  also have "\<dots> = drop k xs" using kpos by simp
  finally have next_page:
    "select_page_chronologically db limit (Some x) flt = take n (drop k xs)"
    using lim by (simp add: select_page_chronologically_def sql_limit_def n_def)
  have "take n xs @ take n (drop k xs) = take (2 * n) xs"
  proof (cases "n \<le> length xs")
    case True
    then have "k = n" by (simp add: k_def)
    then show ?thesis by (simp add: take_add mult_2)
  next
    case False
    then have "k = length xs" by (simp add: k_def)
    with False show ?thesis by simp
  qed
  then show ?thesis
    unfolding page last page2n next_page [unfolded x_def] .
qed

text \<open>
  Claim C7. For a limit that is not negative, \<^verbatim>\<open>select_page_chronologically\<close> returns
  at most \<open>limit\<close> entries, all of them entries of the table that pass the filters,
  in descending order of \<^verbatim>\<open>remote_updated\<close>, and with \<^verbatim>\<open>older_than\<close> given all of
  them strictly older than it. When the entries that pass the filters have distinct
  \<^verbatim>\<open>remote_updated\<close>, a page followed by the page whose cursor is the
  \<^verbatim>\<open>remote_updated\<close> of its last entry is the page of twice the limit: the two pages
  neither overlap nor leave a gap.
\<close>

theorem select_page_chronologically_pages:
  assumes "0 \<le> limit"
  shows "length (select_page_chronologically db limit older_than flt) \<le> nat limit
    \<and> (\<forall>e \<in> set (select_page_chronologically db limit older_than flt).
         e \<in> set (entries db) \<and> filtered_query db flt e)
    \<and> sorted_wrt (\<lambda>a b. remote_updated b \<le> remote_updated a)
         (select_page_chronologically db limit older_than flt)
    \<and> (\<forall>t. older_than = Some t \<longrightarrow>
         (\<forall>e \<in> set (select_page_chronologically db limit older_than flt). remote_updated e < t))
    \<and> (distinct (map remote_updated (filter (filtered_query db flt) (entries db)))
        \<and> select_page_chronologically db limit older_than flt \<noteq> [] \<longrightarrow>
        select_page_chronologically db limit older_than flt @
        select_page_chronologically db limit
          (Some (remote_updated (last (select_page_chronologically db limit older_than flt)))) flt
        = select_page_chronologically db (2 * limit) older_than flt)"
proof -
  let ?ys = "filter (\<lambda>e. filtered_query db flt e \<and>
                        (case older_than of None \<Rightarrow> True | Some t \<Rightarrow> remote_updated e < t))
             (entries db)"
  let ?xs = "sort_key (\<lambda>e. - remote_updated e) ?ys"
  have page: "select_page_chronologically db limit older_than flt = take (nat limit) ?xs"
    using assms by (simp add: select_page_chronologically_def sql_limit_def)
  have a: "length (select_page_chronologically db limit older_than flt) \<le> nat limit"
    unfolding page by simp
  have mem: "e \<in> set (entries db) \<and> filtered_query db flt e \<and>
      (case older_than of None \<Rightarrow> True | Some t \<Rightarrow> remote_updated e < t)"
    if "e \<in> set (select_page_chronologically db limit older_than flt)" for e
  proof -
    from that have "e \<in> set ?xs" unfolding page by (rule in_set_takeD)
    then show ?thesis by simp
  qed
  have "sorted (map (\<lambda>e. - remote_updated e) ?xs)" by (rule sorted_sort_key)
  then have "sorted_wrt (\<lambda>a b. remote_updated b \<le> remote_updated a) ?xs"
    by (simp add: sorted_map)
  then have c: "sorted_wrt (\<lambda>a b. remote_updated b \<le> remote_updated a)
         (select_page_chronologically db limit older_than flt)"
    unfolding page by (rule sorted_wrt_take)
  have d: "\<forall>t. older_than = Some t \<longrightarrow>
         (\<forall>e \<in> set (select_page_chronologically db limit older_than flt). remote_updated e < t)"
    using mem by fastforce
  show ?thesis
    using a mem c d chronological_next_page [OF assms] by blast
qed


lemma example_page1:
  "select_page_chronologically example_db 2 None no_filters =
     [example_entry 2 1 10, example_entry 4 1 9]"
  by (simp add: select_page_chronologically_def sql_limit_def example_db_def no_filters_def
      filtered_query_def truthy_flag_def truthy_str_def example_entry_def)

lemma example_page2:
  "select_page_chronologically example_db 2 (Some 9) no_filters =
     [example_entry 1 1 8, example_entry 3 1 7]"
  by (simp add: select_page_chronologically_def sql_limit_def example_db_def no_filters_def
      filtered_query_def truthy_flag_def truthy_str_def example_entry_def)

theorem select_page_chronologically_pages_witness:
  "map remote_updated (select_page_chronologically example_db 2 None no_filters) = [10, 9]
   \<and> map remote_updated (select_page_chronologically example_db 2 (Some 9) no_filters) = [8, 7]
   \<and> select_page_chronologically example_db 2 None no_filters @
      select_page_chronologically example_db 2 (Some 9) no_filters
      = select_page_chronologically example_db (2 * 2) None no_filters"
proof -
  have l: "(0::int) \<le> 2" by simp
  have d: "distinct (map remote_updated (filter (filtered_query example_db no_filters)
      (entries example_db)))"
    by (simp add: example_db_def no_filters_def filtered_query_def truthy_flag_def
        truthy_str_def example_entry_def)
  have ne: "select_page_chronologically example_db 2 None no_filters \<noteq> []"
    by (simp add: example_page1)
  have c: "remote_updated (last (select_page_chronologically example_db 2 None no_filters)) = 9"
    by (simp add: example_page1 example_entry_def)
  from select_page_chronologically_pages [OF l, of example_db None no_filters] d ne
  have "select_page_chronologically example_db 2 None no_filters @
        select_page_chronologically example_db 2
          (Some (remote_updated (last (select_page_chronologically example_db 2 None no_filters))))
          no_filters
        = select_page_chronologically example_db (2 * 2) None no_filters"
    by blast
  then show ?thesis
    unfolding c by (simp add: example_page1 example_page2 example_entry_def)
qed


lemma frequency_rows_rank:
  "(e, r) \<in> set (frequency_rows t db flt) \<Longrightarrow>
     \<exists>f \<in> set (feeds db). feed_id e = Some (f_id f) \<and>
       r = freq_bucket (int (length (recent_entries t db f)))"
  by (auto simp: frequency_rows_def rank_subquery_def)

lemma frequency_key_le:
  "frequency_key s a \<le> frequency_key s b \<longleftrightarrow>
     (\<not> older_bucket s (fst a) \<and> older_bucket s (fst b))
     \<or> (older_bucket s (fst a) = older_bucket s (fst b) \<and>
         (snd a < snd b \<or> (snd a = snd b \<and> remote_updated (fst b) \<le> remote_updated (fst a))))"
  by (auto simp: frequency_key_def less_eq_prod_def less_prod_def)

lemma frequency_ordered_nth:
  assumes "i < j" and "j < length (frequency_ordered now db s flt)"
  shows "frequency_key s (frequency_ordered now db s flt ! i)
       \<le> frequency_key s (frequency_ordered now db s flt ! j)"
proof -
  have "sorted (map (frequency_key s) (frequency_ordered now db s flt))"
    by (simp add: frequency_ordered_def Let_def)
  then show ?thesis
    using assms by (simp add: sorted_iff_nth_mono)
qed


lemma older_bucket_iff:
  "older_bucket s e = (remote_updated e < s - timedelta_hours 48)"
  by (auto simp: older_bucket_def Let_def timedelta_hours_def)

lemma recent_before_older:
  assumes "i < length (frequency_ordered now db s flt)"
    and "j < length (frequency_ordered now db s flt)"
    and "\<not> older_bucket s (fst (frequency_ordered now db s flt ! i))"
    and "older_bucket s (fst (frequency_ordered now db s flt ! j))"
  shows "i < j"
proof (rule ccontr)
  assume "\<not> i < j"
  then consider "j = i" | "j < i" by arith
  then show False
  proof cases
    case 1
    with assms(3,4) show False by simp
  next
    case 2
    from frequency_ordered_nth [OF 2 assms(1)] assms(3,4) show False
      by (simp add: frequency_key_le)
  qed
qed

text \<open>
  Claim C5. In the rows of the frequency-weighted query, ordered for the reference
  instant \<open>start_at\<close>, an entry whose \<^verbatim>\<open>remote_updated\<close> is not older than
  \<open>start_at\<close> minus 48 hours stands before every entry that is older than that, whatever
  the ranks of their feeds; in particular an entry updated one hour before \<open>start_at\<close>
  stands before one updated 72 hours before it. Two rows of the same bucket are in
  ascending order of the rank and, for equal ranks, in descending order of
  \<^verbatim>\<open>remote_updated\<close>. The rank of a row is the \<^verbatim>\<open>freq_bucket\<close> of the number of entries
  of the entry's feed in the last 14 days, and every page is a slice of these rows.
\<close>

theorem frequency_order:
  assumes "rows = frequency_ordered now db start_at flt"
    and "i < length rows" and "j < length rows"
  shows "(start_at - timedelta_hours 48 \<le> remote_updated (fst (rows ! i)) \<and>
          remote_updated (fst (rows ! j)) < start_at - timedelta_hours 48 \<longrightarrow> i < j)
    \<and> (remote_updated (fst (rows ! i)) = start_at - timedelta_hours 1 \<and>
        remote_updated (fst (rows ! j)) = start_at - timedelta_hours 72 \<longrightarrow> i < j)
    \<and> (i < j \<and> older_bucket start_at (fst (rows ! i)) = older_bucket start_at (fst (rows ! j)) \<longrightarrow>
          snd (rows ! i) \<le> snd (rows ! j) \<and>
          (snd (rows ! i) = snd (rows ! j) \<longrightarrow>
             remote_updated (fst (rows ! j)) \<le> remote_updated (fst (rows ! i))))
    \<and> (\<exists>f \<in> set (feeds db). feed_id (fst (rows ! i)) = Some (f_id f) \<and>
          snd (rows ! i) =
            freq_bucket (int (length (recent_entries (now - timedelta_days 14) db f))))
    \<and> (\<forall>per_page limit page items.
          select_page_by_frequency now per_page db limit start_at page flt = Inr items \<longrightarrow>
          items = take (nat per_page) (drop (nat ((page - 1) * per_page)) (map fst rows)))"
proof -
  have a: "i < j"
    if "start_at - timedelta_hours 48 \<le> remote_updated (fst (rows ! i))"
      and "remote_updated (fst (rows ! j)) < start_at - timedelta_hours 48"
  proof -
    from that have "\<not> older_bucket start_at (fst (rows ! i))"
      and "older_bucket start_at (fst (rows ! j))"
      by (simp_all add: older_bucket_iff)
    then show ?thesis
      using recent_before_older assms by blast
  qed
  have b: "i < j"
    if "remote_updated (fst (rows ! i)) = start_at - timedelta_hours 1"
      and "remote_updated (fst (rows ! j)) = start_at - timedelta_hours 72"
    using that by (intro a) (simp_all add: timedelta_hours_def)
  have c: "snd (rows ! i) \<le> snd (rows ! j) \<and>
          (snd (rows ! i) = snd (rows ! j) \<longrightarrow>
             remote_updated (fst (rows ! j)) \<le> remote_updated (fst (rows ! i)))"
    if "i < j"
      and "older_bucket start_at (fst (rows ! i)) = older_bucket start_at (fst (rows ! j))"
    using frequency_ordered_nth [OF that(1), of now db start_at flt] assms(1,3) that(2)
    by (auto simp: frequency_key_le)
  have "rows ! i \<in> set (frequency_rows (now - timedelta_days 14) db flt)"
    using assms(1,2) nth_mem [of i rows] by (simp add: frequency_ordered_def Let_def)
  then have d: "\<exists>f \<in> set (feeds db). feed_id (fst (rows ! i)) = Some (f_id f) \<and>
          snd (rows ! i) =
            freq_bucket (int (length (recent_entries (now - timedelta_days 14) db f)))"
    using frequency_rows_rank [of "fst (rows ! i)" "snd (rows ! i)"] by simp
  have e: "items = take (nat per_page) (drop (nat ((page - 1) * per_page)) (map fst rows))"
    if "select_page_by_frequency now per_page db limit start_at page flt = Inr items"
    for per_page limit page items
    using that unfolding select_page_by_frequency_def assms(1)
    by (auto dest!: paginate_items simp: limit_query_def)
  from a b c d e show ?thesis by blast
qed


lemma example_rank_subquery:
  "rank_subquery (0 - timedelta_days 14) example_frequency_db = [(1, 1), (2, 2)]"
  by (simp add: rank_subquery_def recent_entries_def example_frequency_db_def example_feed_def
      example_entry_def timedelta_days_def timedelta_hours_def freq_bucket_def)

lemma example_frequency_ordered:
  "frequency_ordered 0 example_frequency_db 0 no_filters =
     [(example_entry 4 2 (- timedelta_hours 1), 2), (example_entry 3 2 (- timedelta_hours 2), 2),
      (example_entry 1 1 (- timedelta_hours 72), 1), (example_entry 2 2 (- timedelta_hours 100), 2)]"
  unfolding frequency_ordered_def Let_def frequency_rows_def example_rank_subquery
  by (simp add: example_frequency_db_def example_feed_def
      example_entry_def timedelta_hours_def no_filters_def filtered_query_def
      truthy_flag_def truthy_str_def frequency_key_def older_bucket_def Let_def
      less_eq_prod_def less_prod_def)

theorem frequency_order_witness:
  "remote_updated (fst (frequency_ordered 0 example_frequency_db 0 no_filters ! 0)) = 0 - timedelta_hours 1
   \<and> snd (frequency_ordered 0 example_frequency_db 0 no_filters ! 0) = 2
   \<and> remote_updated (fst (frequency_ordered 0 example_frequency_db 0 no_filters ! 2)) = 0 - timedelta_hours 72
   \<and> snd (frequency_ordered 0 example_frequency_db 0 no_filters ! 2) = 1
   \<and> (0::nat) < 2
   \<and> select_page_by_frequency 0 20 example_frequency_db 20 0 1 no_filters =
       Inr (take 20 (map fst (frequency_ordered 0 example_frequency_db 0 no_filters)))"
proof -
  let ?rows = "frequency_ordered 0 example_frequency_db 0 no_filters"
  have r: "?rows = frequency_ordered 0 example_frequency_db 0 no_filters" by simp
  have i: "0 < length ?rows" and j: "2 < length ?rows"
    by (simp_all add: example_frequency_ordered)
  have a: "remote_updated (fst (?rows ! 0)) = 0 - timedelta_hours 1"
    and b: "remote_updated (fst (?rows ! 2)) = 0 - timedelta_hours 72"
    and c: "snd (?rows ! 0) = 2" and d: "snd (?rows ! 2) = 1"
    by (simp_all add: example_frequency_ordered example_entry_def)
  obtain items where p: "select_page_by_frequency 0 20 example_frequency_db 20 0 1 no_filters
      = Inr items"
    by (simp add: select_page_by_frequency_def paginate_def Let_def)
  from frequency_order [OF r i j] a b have "(0::nat) < 2" by blast
  moreover from frequency_order [OF r i j] p
  have "items = take (nat 20) (drop (nat ((1 - 1) * 20)) (map fst ?rows))" by blast
  ultimately show ?thesis using a b c d p by simp
qed

text \<open>
  Claim C6. The frequency-weighted retrieval excludes entries: the query joins the
  entries with the subquery of the feeds that have an entry in the last 14 days, and the
  join is an inner join. For a feed whose only entry is 30 days old, the first page of
  the frequency-weighted view is empty, while the entry passes the filters and the
  chronological view returns it.
\<close>

theorem stale_feed_missing_from_frequency_view:
  "select_page_by_frequency 0 20 example_stale_db 20 0 1 no_filters = Inr []
   \<and> select_page_chronologically example_stale_db 20 None no_filters
       = [example_entry 1 1 (- timedelta_days 30)]
   \<and> filtered_query example_stale_db no_filters (example_entry 1 1 (- timedelta_days 30))"
  by (simp add: select_page_by_frequency_def paginate_def Let_def execute_def offset_query_def
      limit_query_def sql_limit_def frequency_ordered_def frequency_rows_def rank_subquery_def
      recent_entries_def select_page_chronologically_def example_stale_db_def example_feed_def
      example_entry_def timedelta_days_def no_filters_def filtered_query_def truthy_flag_def
      truthy_str_def)



section \<open>Properties of the upsert\<close>

lemma fold_max_ge: "x \<in> set xs \<Longrightarrow> x \<le> fold max xs (a::int)"
proof -
  assume "x \<in> set xs"
  then have "x \<le> Max (set (a # xs))" by (intro Max_ge) simp_all
  then show ?thesis by (simp only: Max.set_eq_fold)
qed

lemma next_id_fresh: "r \<in> set t \<Longrightarrow> r ''id'' \<noteq> Num (next_id t)"
proof
  assume r: "r \<in> set t" and eq: "r ''id'' = Num (next_id t)"
  then have "id_num r = next_id t" by (simp add: id_num_def)
  moreover have "id_num r \<le> fold max (map id_num t) 0"
    using r by (intro fold_max_ge) simp
  ultimately show False by (simp add: next_id_def)
qed

lemma rows_of_key_at_most_one:
  assumes "unique_entries t" and "rid \<noteq> Null"
  shows "rows_of_key fid rid t = [] \<or> (\<exists>r. rows_of_key fid rid t = [r])"
proof -
  let ?nn = "\<lambda>r. r ''feed_id'' \<noteq> Null \<and> r ''remote_id'' \<noteq> Null"
  let ?kf = "\<lambda>r. (r ''feed_id'', r ''remote_id'')"
  have "rows_of_key fid rid t
      = filter (\<lambda>r. r ''feed_id'' = Num fid \<and> r ''remote_id'' = rid) (filter ?nn t)"
    using assms(2) by (auto simp: rows_of_key_def intro: filter_cong)
  moreover have "distinct (map ?kf (filter ?nn t))"
    using assms(1) by (simp add: unique_entries_def)
  ultimately have d: "distinct (map ?kf (rows_of_key fid rid t))"
    by (simp only: distinct_map_filter)
  have k: "\<forall>r \<in> set (rows_of_key fid rid t). ?kf r = (Num fid, rid)"
    by (simp add: rows_of_key_def)
  show ?thesis
  proof (cases "rows_of_key fid rid t")
    case Nil
    then show ?thesis by simp
  next
    case (Cons a as)
    show ?thesis
    proof (cases as)
      case Nil
      with Cons show ?thesis by simp
    next
      case (Cons b bs)
      with \<open>rows_of_key fid rid t = a # as\<close> d k show ?thesis by auto
    qed
  qed
qed


lemma apply_values_Some: "map_of vs c = Some v \<Longrightarrow> apply_values vs r c = v"
  by (simp add: apply_values_def)

lemma apply_values_None: "map_of vs c = None \<Longrightarrow> apply_values vs r c = r c"
  by (simp add: apply_values_def)

lemma upsert_step:
  assumes K: "list_all (\<lambda>k. k \<in> set (columns entries_schema)) (map fst vs)"
    and noid: "map_of vs ''id'' = None" and nocr: "map_of vs ''created'' = None"
    and fid: "map_of vs ''feed_id'' = Some (Num fid)"
    and rid: "map_of vs ''remote_id'' = Some rid" "rid \<noteq> Null"
    and req: "\<forall>c \<in> set [''title'', ''updated'', ''remote_created'', ''remote_updated''].
                \<exists>v. map_of vs c = Some v \<and> v \<noteq> Null"
    and U: "unique_entries t"
  shows "\<exists>t' r'. sqlite_upsert entries_schema now vs t = Inr t' \<and> unique_entries t'
           \<and> rows_of_key fid rid t' = [r']
           \<and> (\<forall>c v. map_of vs c = Some v \<longrightarrow> r' c = v)
           \<and> (\<forall>r. rows_of_key fid rid t = [r] \<longrightarrow> r' = apply_values vs r)"
proof -
  define new where "new = apply_values vs (insert_defaults now t)"
  let ?nn = "\<lambda>r::row. r ''feed_id'' \<noteq> Null \<and> r ''remote_id'' \<noteq> Null"
  let ?kf = "\<lambda>r::row. (r ''feed_id'', r ''remote_id'')"
  let ?key = "\<lambda>r::row. r ''feed_id'' = Num fid \<and> r ''remote_id'' = rid"
  have new_vs: "new c = v" if "map_of vs c = Some v" for c v
    using that by (simp add: new_def apply_values_Some)
  have new_id: "new ''id'' = Num (next_id t)"
    by (simp add: new_def apply_values_None [OF noid] insert_defaults_def)
  have new_cr: "new ''created'' = Ts now"
    by (simp add: new_def apply_values_None [OF nocr] insert_defaults_def)
  have new_key: "new ''feed_id'' = Num fid" "new ''remote_id'' = rid"
    using fid rid(1) by (simp_all add: new_vs)
  have nn: "\<not> list_ex (\<lambda>c. new c = Null) (not_null entries_schema)"
    using req rid new_id new_cr new_key
    by (auto simp: entries_schema_def dest!: new_vs)
  have conf: "conflicts new r = ?key r" for r
    using rid(2) by (auto simp: conflicts_def new_key)
  define t' where "t' = (if list_ex (conflicts new) t
                    then map (\<lambda>r. if conflicts new r then apply_values vs r else r) t
                    else t @ [new])"
  have res: "sqlite_upsert entries_schema now vs t =
      (if distinct (map (\<lambda>r. r ''id'') t') then Inr t' else Inl IntegrityError)"
    using K nn by (simp add: sqlite_upsert_def Let_def new_def [symmetric] t'_def)
  from U have Uid: "distinct (map (\<lambda>r. r ''id'') t)"
    and Ukey: "distinct (map ?kf (filter ?nn t))"
    by (simp_all add: unique_entries_def)
  from rows_of_key_at_most_one [OF U rid(2), of fid]
  consider "rows_of_key fid rid t = []" | r where "rows_of_key fid rid t = [r]" by blast
  then show ?thesis
  proof cases
    case 1
    then have nokey: "\<not> ?key r" if "r \<in> set t" for r
      using that by (auto simp: rows_of_key_def filter_empty_conv)
    then have t': "t' = t @ [new]"
      by (auto simp: t'_def list_ex_iff conf)
    have "Num (next_id t) \<notin> (\<lambda>r. r ''id'') ` set t"
    proof
      assume "Num (next_id t) \<in> (\<lambda>r. r ''id'') ` set t"
      then obtain x where "x \<in> set t" and "x ''id'' = Num (next_id t)" by force
      then show False using next_id_fresh by blast
    qed
    then have ids: "distinct (map (\<lambda>r. r ''id'') t')"
      using Uid by (simp add: t' new_id)
    have "?kf new \<notin> set (map ?kf (filter ?nn t))"
    proof
      assume "?kf new \<in> set (map ?kf (filter ?nn t))"
      then obtain x where "x \<in> set t" and "?kf x = ?kf new" by auto
      then have "x \<in> set t" and "?key x" by (simp_all add: new_key)
      then show False using nokey by blast
    qed
    then have keys: "distinct (map ?kf (filter ?nn t'))"
      using Ukey by (simp add: t')
    have rows: "rows_of_key fid rid t' = [new]"
      using 1 by (simp add: rows_of_key_def t' new_key)
    show ?thesis
      using res ids keys rows new_vs 1 by (simp add: unique_entries_def)
  next
    case 2
    define g where "g = (\<lambda>r. if conflicts new r then apply_values vs r else r)"
    have "r \<in> set (rows_of_key fid rid t)" using 2 by simp
    then have rt: "r \<in> set t" and rkey: "?key r" by (simp_all add: rows_of_key_def)
    then have t': "t' = map g t"
      by (auto simp: t'_def g_def list_ex_iff conf)
    have g_id: "g x ''id'' = x ''id''" for x
      by (simp add: g_def apply_values_None [OF noid])
    have g_fid: "g x ''feed_id'' = x ''feed_id''" for x
      by (simp add: g_def conf apply_values_Some [OF fid])
    have g_rid: "g x ''remote_id'' = x ''remote_id''" for x
      by (simp add: g_def conf apply_values_Some [OF rid(1)])
    have ids: "distinct (map (\<lambda>r. r ''id'') t')"
      using Uid by (simp add: t' comp_def g_id)
    have "filter ?nn t' = map g (filter ?nn t)"
      by (simp add: t' filter_map comp_def g_fid g_rid)
    then have keys: "distinct (map ?kf (filter ?nn t'))"
      using Ukey by (simp add: comp_def g_fid g_rid)
    have "rows_of_key fid rid t' = map g (rows_of_key fid rid t)"
      by (simp add: rows_of_key_def t' filter_map comp_def g_fid g_rid)
    then have rows: "rows_of_key fid rid t' = [apply_values vs r]"
      using 2 rkey by (simp add: g_def conf)
    show ?thesis
      using res ids keys rows 2 by (simp add: unique_entries_def apply_values_Some)
  qed
qed


lemma canonical_keys:
  assumes "canonical_entry e"
  shows "fst ` set e \<subseteq> set source_columns"
  using assms by (auto simp: canonical_entry_def list_all_iff)

lemma canonical_absent:
  assumes "canonical_entry e" and "c \<notin> set source_columns"
  shows "map_of e c = None"
  using canonical_keys [OF assms(1)] assms(2) by (auto simp: map_of_eq_None_iff)

lemma stamped_values:
  assumes C: "canonical_entry e" and R: "map_of e ''remote_id'' = Some rid"
    and vs_def: "vs = AList.update ''feed_id'' (Num fid) (AList.update ''updated'' (Ts now) e)"
  shows "list_all (\<lambda>k. k \<in> set (columns entries_schema)) (map fst vs)"
    and "map_of vs ''id'' = None" and "map_of vs ''created'' = None"
    and "map_of vs ''feed_id'' = Some (Num fid)"
    and "map_of vs ''updated'' = Some (Ts now)"
    and "map_of vs ''remote_id'' = Some rid" and "rid \<noteq> Null"
    and "\<forall>c \<in> set [''title'', ''updated'', ''remote_created'', ''remote_updated''].
                \<exists>v. map_of vs c = Some v \<and> v \<noteq> Null"
    and "map_of vs ''favorited'' = None" and "map_of vs ''pinned'' = None"
    and "map_of vs ''deleted'' = None"
    and "\<forall>(c, v) \<in> set e. map_of vs c = Some v"
proof -
  have m: "map_of vs = ((map_of e)(''updated'' \<mapsto> Ts now))(''feed_id'' \<mapsto> Num fid)"
    by (simp add: vs_def update_conv')
  have keys: "fst ` set vs = {''feed_id'', ''updated''} \<union> fst ` set e"
    by (auto simp: vs_def dom_update)
  have "fst ` set vs \<subseteq> set (columns entries_schema)"
    unfolding keys using canonical_keys [OF C]
    by (auto simp: source_columns_def entries_schema_def)
  then show "list_all (\<lambda>k. k \<in> set (columns entries_schema)) (map fst vs)"
    by (auto simp: list_all_iff)
  show "map_of vs ''id'' = None" "map_of vs ''created'' = None"
    "map_of vs ''favorited'' = None" "map_of vs ''pinned'' = None" "map_of vs ''deleted'' = None"
    by (simp_all add: m canonical_absent [OF C] source_columns_def)
  show "map_of vs ''feed_id'' = Some (Num fid)" "map_of vs ''updated'' = Some (Ts now)"
    by (simp_all add: m)
  show "map_of vs ''remote_id'' = Some rid" by (simp add: m R)
  from C R show "rid \<noteq> Null" by (auto simp: canonical_entry_def)
  from C show "\<forall>c \<in> set [''title'', ''updated'', ''remote_created'', ''remote_updated''].
                \<exists>v. map_of vs c = Some v \<and> v \<noteq> Null"
    by (auto simp: m canonical_entry_def split: option.splits)
  show "\<forall>(c, v) \<in> set e. map_of vs c = Some v"
  proof (clarify)
    fix c v assume cv: "(c, v) \<in> set e"
    from C have "distinct (map fst e)" by (simp add: canonical_entry_def)
    then have "map_of e c = Some v" using cv by (rule map_of_is_SomeI)
    moreover have "c \<in> set source_columns" using canonical_keys [OF C] cv by force
    then have "c \<noteq> ''updated''" "c \<noteq> ''feed_id''" by (auto simp: source_columns_def)
    ultimately show "map_of vs c = Some v" by (simp add: m)
  qed
qed

text \<open>
  Claim C1. Let \<open>e1\<close> and \<open>e2\<close> be valid canonical entries with the same remote
  identifier, written for the same feed into a table that satisfies its uniqueness
  constraints. Both calls of \<^verbatim>\<open>upsert_entries\<close> succeed (as does one call with both
  entries); after each there is exactly one row with that feed and remote identifier;
  after the second the row holds the value of \<open>e2\<close> in every column that \<open>e2\<close> gives,
  and the time of the second call in \<^verbatim>\<open>updated\<close>; and its \<^verbatim>\<open>favorited\<close>, \<^verbatim>\<open>pinned\<close>
  and \<^verbatim>\<open>deleted\<close> markers, like its primary key and \<^verbatim>\<open>created\<close>, are the ones that the
  row had after \<open>e1\<close>.
\<close>

theorem upsert_twice_keeps_one_row_and_markers:
  assumes "canonical_entry e1" and "canonical_entry e2"
    and "map_of e1 ''remote_id'' = Some rid" and "map_of e2 ''remote_id'' = Some rid"
    and "unique_entries t"
  shows "\<exists>t1 t2 r1 r2.
      upsert_entries now1 fid [e1] t = (t1, None)
    \<and> upsert_entries now2 fid [e2] t1 = (t2, None)
    \<and> upsert_entries now1 fid [e1, e2] t = upsert_entries now1 fid [e2] t1
    \<and> rows_of_key fid rid t1 = [r1] \<and> rows_of_key fid rid t2 = [r2]
    \<and> (\<forall>(c, v) \<in> set e2. r2 c = v)
    \<and> r2 ''updated'' = Ts now2
    \<and> r2 ''favorited'' = r1 ''favorited'' \<and> r2 ''pinned'' = r1 ''pinned''
    \<and> r2 ''deleted'' = r1 ''deleted''
    \<and> r2 ''id'' = r1 ''id'' \<and> r2 ''created'' = r1 ''created''"
proof -
  define vs1 where "vs1 = AList.update ''feed_id'' (Num fid) (AList.update ''updated'' (Ts now1) e1)"
  define vs2 where "vs2 = AList.update ''feed_id'' (Num fid) (AList.update ''updated'' (Ts now2) e2)"
  note s1 = stamped_values [OF assms(1,3) vs1_def]
  note s2 = stamped_values [OF assms(2,4) vs2_def]
  from upsert_step [OF s1(1,2,3,4,6,7,8) assms(5), of now1]
  obtain t1 r1 where t1: "sqlite_upsert entries_schema now1 vs1 t = Inr t1"
    and u1: "unique_entries t1" and k1: "rows_of_key fid rid t1 = [r1]"
    by blast
  from upsert_step [OF s2(1,2,3,4,6,7,8) u1, of now2]
  obtain t2 r2 where t2: "sqlite_upsert entries_schema now2 vs2 t1 = Inr t2"
    and k2: "rows_of_key fid rid t2 = [r2]"
    and v2: "\<forall>c v. map_of vs2 c = Some v \<longrightarrow> r2 c = v"
    and o2: "\<forall>r. rows_of_key fid rid t1 = [r] \<longrightarrow> r2 = apply_values vs2 r"
    by blast
  from o2 k1 have r2: "r2 = apply_values vs2 r1" by blast
  have a: "upsert_entries now1 fid [e1] t = (t1, None)"
    using t1 by (simp add: Let_def vs1_def)
  have b: "upsert_entries now2 fid [e2] t1 = (t2, None)"
    using t2 by (simp add: Let_def vs2_def)
  have c: "upsert_entries now1 fid [e1, e2] t = upsert_entries now1 fid [e2] t1"
    using t1 by (simp add: Let_def vs1_def)
  have d: "\<forall>(c, v) \<in> set e2. r2 c = v"
    using s2(12) v2 by blast
  have e: "r2 ''updated'' = Ts now2" using s2(5) v2 by blast
  have f: "r2 ''favorited'' = r1 ''favorited''" "r2 ''pinned'' = r1 ''pinned''"
    "r2 ''deleted'' = r1 ''deleted''" "r2 ''id'' = r1 ''id''" "r2 ''created'' = r1 ''created''"
    unfolding r2 by (simp_all add: apply_values_None s2)
  from a b c k1 k2 d e f show ?thesis by blast
qed


lemma example_values_canonical: "canonical_entry (example_values t u)"
  by (simp add: canonical_entry_def example_values_def source_columns_def)

lemma example_first_upsert:
  "upsert_entries 5 1 [example_values ''new'' 2] [example_row] =
     ([apply_values
         (AList.update ''feed_id'' (Num 1)
            (AList.update ''updated'' (Ts 5) (example_values ''new'' 2))) example_row], None)"
  by (simp add: sqlite_upsert_def entries_schema_def example_values_def example_row_def
      apply_values_def insert_defaults_def conflicts_def Let_def)

theorem upsert_twice_keeps_one_row_and_markers_witness:
  "canonical_entry (example_values ''new'' 2) \<and> canonical_entry (example_values ''newer'' 4)
   \<and> unique_entries [example_row]
   \<and> (\<exists>t1 t2 r2.
         upsert_entries 5 1 [example_values ''new'' 2] [example_row] = (t1, None)
       \<and> upsert_entries 6 1 [example_values ''newer'' 4] t1 = (t2, None)
       \<and> rows_of_key 1 (Str ''r'') t2 = [r2]
       \<and> r2 ''title'' = Str ''newer'' \<and> r2 ''remote_updated'' = Ts 4
       \<and> r2 ''favorited'' = Ts 3)"
proof -
  have u: "unique_entries [example_row]" by (simp add: unique_entries_def)
  have k1: "map_of (example_values ''new'' 2) ''remote_id'' = Some (Str ''r'')"
    and k2: "map_of (example_values ''newer'' 4) ''remote_id'' = Some (Str ''r'')"
    by (simp_all add: example_values_def)
  from upsert_twice_keeps_one_row_and_markers
    [OF example_values_canonical example_values_canonical k1 k2 u, of 5 1 6]
  obtain t1 t2 r1 r2 where
    a: "upsert_entries 5 1 [example_values ''new'' 2] [example_row] = (t1, None)"
    and b: "upsert_entries 6 1 [example_values ''newer'' 4] t1 = (t2, None)"
    and r1: "rows_of_key 1 (Str ''r'') t1 = [r1]" and r2: "rows_of_key 1 (Str ''r'') t2 = [r2]"
    and v: "\<forall>(c, v) \<in> set (example_values ''newer'' 4). r2 c = v"
    and f: "r2 ''favorited'' = r1 ''favorited''"
    by blast
  from a have "t1 = [apply_values
         (AList.update ''feed_id'' (Num 1)
            (AList.update ''updated'' (Ts 5) (example_values ''new'' 2))) example_row]"
    by (simp only: example_first_upsert prod.inject)
  with r1 have "r1 ''favorited'' = Ts 3"
    by (auto simp: rows_of_key_def example_values_def example_row_def apply_values_def
        split: if_splits)
  with f have "r2 ''favorited'' = Ts 3" by simp
  moreover from v have "r2 ''title'' = Str ''newer''" "r2 ''remote_updated'' = Ts 4"
    by (simp_all add: example_values_def)
  ultimately show ?thesis
    using a b r2 u example_values_canonical by blast
qed


end
